theory Spec2Isabelle
  imports Main "HOL-Library.Word"
begin

section \<open>JavaScript strings\<close>

text \<open>
  A JavaScript string is a sequence of UTF-16 code units; \<open>length\<close>, \<open>substring\<close>,
  \<open>lastIndexOf\<close> and \<open>trim\<close> all count and compare code units. The literals of the
  source are ASCII and are written through \<open>js\<close>.
\<close>

type_synonym jsstring = "16 word list"

definition js :: "string \<Rightarrow> jsstring" where
  "js s = map (\<lambda>c. of_nat (of_char c)) s"

text \<open>
  \<open>String.prototype.trim\<close> removes WhiteSpace and LineTerminator code units from both
  ends: TAB, LF, VT, FF, CR, SP, NBSP, U+1680, U+2000 to U+200A, U+2028, U+2029, U+202F,
  U+205F, U+3000 and U+FEFF.
\<close>

definition is_ws :: "16 word \<Rightarrow> bool" where
  "is_ws c \<longleftrightarrow>
     c = 0x09 \<or> c = 0x0A \<or> c = 0x0B \<or> c = 0x0C \<or> c = 0x0D \<or> c = 0x20 \<or> c = 0xA0 \<or>
     c = 0x1680 \<or> (0x2000 \<le> c \<and> c \<le> 0x200A) \<or> c = 0x2028 \<or> c = 0x2029 \<or>
     c = 0x202F \<or> c = 0x205F \<or> c = 0x3000 \<or> c = 0xFEFF"

definition trimStart :: "jsstring \<Rightarrow> jsstring" where
  "trimStart s = dropWhile is_ws s"

definition trimEnd :: "jsstring \<Rightarrow> jsstring" where
  "trimEnd s = rev (dropWhile is_ws (rev s))"

definition trim :: "jsstring \<Rightarrow> jsstring" where
  "trim s = trimStart (trimEnd s)"

text \<open>
  \<open>s.substring(a, b)\<close> clamps both indices to \<open>0 .. s.length\<close> (and swaps them when
  \<open>a > b\<close>); the source only calls \<open>substring(0, b)\<close> and \<open>substring(a)\<close>.
\<close>

definition substringTo :: "jsstring \<Rightarrow> int \<Rightarrow> jsstring" where
  "substringTo s b = take (nat b) s"

definition substringFrom :: "jsstring \<Rightarrow> int \<Rightarrow> jsstring" where
  "substringFrom s a = drop (nat a) s"

definition matchesAt :: "jsstring \<Rightarrow> jsstring \<Rightarrow> nat \<Rightarrow> bool" where
  "matchesAt s pat i \<longleftrightarrow> take (length pat) (drop i s) = pat"

text \<open>
  \<open>s.lastIndexOf(pat, pos)\<close>: the greatest index \<open>i \<le> min (max pos 0) (s.length - pat.length)\<close>
  at which \<open>pat\<close> occurs in \<open>s\<close>, or \<open>-1\<close>.
\<close>

fun lastIndexFrom :: "jsstring \<Rightarrow> jsstring \<Rightarrow> nat \<Rightarrow> int" where
  "lastIndexFrom s pat 0 = (if matchesAt s pat 0 then 0 else - 1)"
| "lastIndexFrom s pat (Suc i) =
     (if matchesAt s pat (Suc i) then int (Suc i) else lastIndexFrom s pat i)"

definition lastIndexOf :: "jsstring \<Rightarrow> jsstring \<Rightarrow> int \<Rightarrow> int" where
  "lastIndexOf s pat pos =
     (if length s < length pat then - 1
      else lastIndexFrom s pat (min (nat pos) (length s - length pat)))"

section \<open>The chunker of the current background worker\<close>

text \<open>
  \<open>chunkText(text, maxLength)\<close>. The \<open>while\<close> loop is \<open>chunkLoop\<close>, with the
  variables \<open>remaining\<close> and \<open>chunks\<close> as arguments. \<open>maxLength\<close> is an integer
  (the callers pass 2000), so \<open>paragraphBreak > maxLength * 0.5\<close> is
  \<open>maxLength < 2 * paragraphBreak\<close>. For \<open>maxLength \<le> 0\<close> the loop need not end,
  which is the value \<open>None\<close>.
\<close>

definition breakPointOf :: "jsstring \<Rightarrow> int \<Rightarrow> int" where
  "breakPointOf remaining maxLength =
     (let sentenceBreak = lastIndexOf remaining (js ''. '') maxLength;
          paragraphBreak = lastIndexOf remaining (js ''\<newline>\<newline>'') maxLength
      in if maxLength < 2 * paragraphBreak then paragraphBreak + 2
         else if maxLength < 2 * sentenceBreak then sentenceBreak + 2
         else maxLength)"

partial_function (option) chunkLoop :: "jsstring \<Rightarrow> int \<Rightarrow> jsstring list \<Rightarrow> jsstring list option" where
  "chunkLoop remaining maxLength chunks =
     (if 0 < length remaining then
        if int (length remaining) \<le> maxLength then Some (chunks @ [remaining])
        else chunkLoop (trim (substringFrom remaining (breakPointOf remaining maxLength))) maxLength
               (chunks @ [trim (substringTo remaining (breakPointOf remaining maxLength))])
      else Some chunks)"

definition chunkText :: "jsstring \<Rightarrow> int \<Rightarrow> jsstring list option" where
  "chunkText text maxLength =
     (if int (length text) \<le> maxLength then Some [text]
      else chunkLoop text maxLength [])"

section \<open>The chunker of the earlier background worker\<close>

text \<open>
  The earlier worker (without retries, export history and update mode) has its own
  \<open>chunkText\<close>; it is translated on its own, with the suffix \<open>_early\<close>.
\<close>

definition breakPointOf_early :: "jsstring \<Rightarrow> int \<Rightarrow> int" where
  "breakPointOf_early remaining maxLength =
     (let sentenceBreak = lastIndexOf remaining (js ''. '') maxLength;
          paragraphBreak = lastIndexOf remaining (js ''\<newline>\<newline>'') maxLength
      in if maxLength < 2 * paragraphBreak then paragraphBreak + 2
         else if maxLength < 2 * sentenceBreak then sentenceBreak + 2
         else maxLength)"

partial_function (option) chunkLoop_early :: "jsstring \<Rightarrow> int \<Rightarrow> jsstring list \<Rightarrow> jsstring list option" where
  "chunkLoop_early remaining maxLength chunks =
     (if 0 < length remaining then
        if int (length remaining) \<le> maxLength then Some (chunks @ [remaining])
        else chunkLoop_early (trim (substringFrom remaining (breakPointOf_early remaining maxLength))) maxLength
               (chunks @ [trim (substringTo remaining (breakPointOf_early remaining maxLength))])
      else Some chunks)"

definition chunkText_early :: "jsstring \<Rightarrow> int \<Rightarrow> jsstring list option" where
  "chunkText_early text maxLength =
     (if int (length text) \<le> maxLength then Some [text]
      else chunkLoop_early text maxLength [])"

section \<open>Undoing the boundary trims\<close>

text \<open>
  \<open>weave gaps cs\<close> puts the gaps back between (and around) the chunks:
  \<open>g\<^sub>0 @ c\<^sub>1 @ g\<^sub>1 @ \<dots> @ c\<^sub>n @ g\<^sub>n\<close>. A text is rebuilt from its chunks when the gaps
  are whitespace only.
\<close>

fun weave :: "jsstring list \<Rightarrow> jsstring list \<Rightarrow> jsstring" where
  "weave (g # gs) (c # cs) = g @ c @ weave gs cs"
| "weave gs [] = concat gs"
| "weave [] cs = concat cs"

definition all_ws :: "jsstring \<Rightarrow> bool" where
  "all_ws g \<longleftrightarrow> list_all is_ws g"

definition rebuilds :: "jsstring list \<Rightarrow> jsstring list \<Rightarrow> jsstring \<Rightarrow> bool" where
  "rebuilds gaps cs t \<longleftrightarrow> length gaps = Suc (length cs) \<and> list_all all_ws gaps \<and> weave gaps cs = t"

section \<open>Blocks of the destination document\<close>

datatype rich_text = Text jsstring | Bold jsstring | Link jsstring jsstring

datatype block = Toggle "rich_text list" "block list" | Paragraph "rich_text list"

record turnSummary =
  summaryTurnNumber :: nat
  oneLine :: jsstring
  "paragraph" :: jsstring
  sourceUser :: jsstring
  sourceAssistant :: jsstring

text \<open>
  The children written into a turn's "Source Text" toggle (\<open>sourceTextChildren\<close> in
  \<open>createNotionToggles\<close> and \<open>appendNotionToggles\<close>): a bold label, one paragraph
  per chunk of the user text, a bold label, one paragraph per chunk of the assistant text.
  \<open>None\<close> when a \<open>chunkText\<close> call does not return.
\<close>

definition chunkBlocks :: "jsstring list \<Rightarrow> block list" where
  "chunkBlocks chunks = map (\<lambda>chunk. Paragraph [Text chunk]) chunks"

definition sourceTextChildren :: "turnSummary \<Rightarrow> int \<Rightarrow> block list option" where
  "sourceTextChildren summary NOTION_BLOCK_LIMIT =
     (case chunkText (sourceUser summary) NOTION_BLOCK_LIMIT of
        None \<Rightarrow> None
      | Some userChunks \<Rightarrow>
          (case chunkText (sourceAssistant summary) NOTION_BLOCK_LIMIT of
             None \<Rightarrow> None
           | Some assistantChunks \<Rightarrow>
               Some ([Paragraph [Bold (js ''User:'')]] @ chunkBlocks userChunks @
                     [Paragraph [Bold (js ''Assistant:'')]] @ chunkBlocks assistantChunks)))"

section \<open>The run state and the outside world\<close>

text \<open>
  A turn as the extraction hands it over, the record kept per conversation in
  \<open>chrome.storage.local.exportHistory\<close> (its \<open>conversationUrl\<close> field is \<open>recordUrl\<close>
  here), and the progress snapshot stored under \<open>exportProgress\<close>.
\<close>

record turn =
  turnNumber :: nat
  user :: jsstring
  assistant :: jsstring

record exportRecord =
  recordUrl :: jsstring
  conversationTitle :: jsstring
  exportedAt :: jsstring
  turnCount :: nat
  notionPageId :: jsstring
  parentBlockId :: jsstring

record progress =
  status :: jsstring
  current :: nat
  total :: nat
  message :: jsstring

text \<open>
  A thrown value: an \<open>Error\<close> with its message, or \<open>undefined\<close> (what
  \<open>throw lastError\<close> throws when \<open>retryWithBackoff\<close> made no attempt).
\<close>

datatype thrown = Error jsstring | Undefined

text \<open>
  What a run does to the outside, in order: requests to the summarization API (model and
  prompt), the two kinds of log line of the model loop, the log line of the orchestrator
  when summarizing a turn failed (the position of the turn and the error), pacing delays,
  requests to the destination document, and notifications (title and message).
\<close>

datatype event =
    Requested jsstring jsstring
  | Skipped jsstring
  | ModelFailed jsstring jsstring
  | SummaryError nat thrown
  | Slept int
  | NotionPatch jsstring "block list"
  | NotionGet jsstring
  | Notified jsstring jsstring

record state =
  requests :: nat
  notionRequests :: nat
  exportProgress :: "progress option"
  exportHistory :: "jsstring \<Rightarrow> exportRecord option"
  trace :: "event list"

text \<open>
  The reply to one summarization request, as far as \<open>handleSummarization\<close> tells
  replies apart: a 2xx response with its text \<open>data.content[0].text\<close>; status 404; status
  429 and any other non-2xx status, each with the \<open>errorMessage\<close> the code extracts from
  the body; and an exception raised inside the \<open>try\<close> block (a rejected \<open>fetch\<close>, an
  unreadable body), with its message.
\<close>

datatype api_reply =
    Answered jsstring
  | Unavailable
  | RateLimited jsstring
  | Refused jsstring
  | Broken jsstring

text \<open>
  The body of a non-2xx reply of the destination service: not JSON, or JSON with its
  \<open>JSON.stringify\<close> text and its \<open>message\<close> field. The reply to one request: a rejected
  \<open>fetch\<close>; a non-2xx response (status, status text, body); a 2xx response whose
  \<open>results\<close> array gives the id and the type of each block; a 2xx response whose body
  cannot be read, with the message of the exception.
\<close>

datatype error_body = NoJson | Json jsstring "jsstring option"

datatype notion_reply =
    NotionDown jsstring
  | NotionRefused nat jsstring error_body
  | NotionOk "(jsstring \<times> jsstring) list"
  | NotionGarbled jsstring

text \<open>
  The outside world of one run: the reply to the \<open>k\<close>-th summarization request (which
  may depend on the model and the prompt sent), the reply to the \<open>k\<close>-th request to the
  destination service, the two time stamps, and \<open>parseSummaries\<close>, the pure function of
  the response text that \<open>handleSummarization\<close> computes with a regular expression,
  \<open>JSON.parse\<close> and the first-sentence fallback (it yields \<open>oneLine\<close> and
  \<open>paragraph\<close>). Calls to \<open>chrome.storage\<close> and \<open>chrome.notifications\<close> complete.
\<close>

record world =
  anthropic :: "nat \<Rightarrow> jsstring \<Rightarrow> jsstring \<Rightarrow> api_reply"
  parseSummaries :: "jsstring \<Rightarrow> jsstring \<times> jsstring"
  notion :: "nat \<Rightarrow> notion_reply"
  toISOString :: jsstring
  toLocaleString :: jsstring

definition emit :: "event \<Rightarrow> state \<Rightarrow> state" where
  "emit e s = s\<lparr>trace := trace s @ [e]\<rparr>"

definition sleep :: "int \<Rightarrow> state \<Rightarrow> state" where
  "sleep ms s = emit (Slept ms) s"

fun numToString :: "nat \<Rightarrow> jsstring" where
  "numToString n =
     (if n < 10 then [of_nat (48 + n)]
      else numToString (n div 10) @ [of_nat (48 + n mod 10)])"

declare numToString.simps [simp del]

section \<open>Retry with exponential backoff\<close>

text \<open>\<open>s.includes(pat)\<close>.\<close>

fun str_includes :: "jsstring \<Rightarrow> jsstring \<Rightarrow> bool" where
  "str_includes [] pat = (pat = [])"
| "str_includes (c # cs) pat = (take (length pat) (c # cs) = pat \<or> str_includes cs pat)"

definition shouldRetry :: "jsstring \<Rightarrow> bool" where
  "shouldRetry errorMessage \<longleftrightarrow>
     str_includes errorMessage (js ''429'') \<or> str_includes errorMessage (js ''rate limit'') \<or>
     (str_includes errorMessage (js ''5'') \<and> str_includes errorMessage (js ''Error''))"

text \<open>
  \<open>fn\<close> is a computation on the run state that returns a value or rejects with an
  \<open>Error\<close>, given by its message.
\<close>

function retryLoop ::
  "(state \<Rightarrow> (jsstring + 'a) \<times> state) \<Rightarrow> int \<Rightarrow> int \<Rightarrow> nat \<Rightarrow> thrown \<Rightarrow> state \<Rightarrow> (thrown + 'a) \<times> state" where
  "retryLoop fn maxRetries initialDelay attempt lastError s =
     (if int attempt < maxRetries then
        (case fn s of
           (Inr v, s1) \<Rightarrow> (Inr v, s1)
         | (Inl error, s1) \<Rightarrow>
             if \<not> shouldRetry error \<or> int attempt = maxRetries - 1 then (Inl (Error error), s1)
             else retryLoop fn maxRetries initialDelay (attempt + 1) (Error error)
                    (sleep (initialDelay * 2 ^ attempt) s1))
      else (Inl lastError, s))"
  by pat_completeness auto
termination
  by (relation "measure (\<lambda>(fn, maxRetries, initialDelay, attempt, lastError, s). nat (maxRetries - int attempt))") auto

declare retryLoop.simps [simp del]

definition retryWithBackoff ::
  "(state \<Rightarrow> (jsstring + 'a) \<times> state) \<Rightarrow> int \<Rightarrow> int \<Rightarrow> state \<Rightarrow> (thrown + 'a) \<times> state" where
  "retryWithBackoff fn maxRetries initialDelay s = retryLoop fn maxRetries initialDelay 0 Undefined s"

section \<open>Summarizing one turn\<close>

definition modelsToTry :: "jsstring list" where
  "modelsToTry =
     [js ''claude-3-5-sonnet-20241022'',
      js ''claude-3-5-sonnet-20240620'',
      js ''claude-3-opus-20240229'',
      js ''claude-3-sonnet-20240229'',
      js ''claude-3-haiku-20240307'']"

definition fullTurn :: "turn \<Rightarrow> jsstring" where
  "fullTurn turnData =
     js ''User: '' @ user turnData @ js ''\<newline>\<newline>Assistant: '' @ assistant turnData"

definition prompt :: "turn \<Rightarrow> jsstring" where
  "prompt turnData =
     js ''You are summarizing a conversation turn between a user and an AI assistant. Provide two summaries:\<newline>\<newline>'' @
     js ''1. A one-sentence summary (max 150 characters)\<newline>'' @
     js ''2. A one-paragraph summary (3-5 sentences)\<newline>\<newline>'' @
     js ''Format your response as JSON:\<newline>{\<newline>'' @
     [0x20, 0x20, 0x22] @ js ''oneLine'' @ [0x22] @ js '': '' @ [0x22] @ js ''...'' @ [0x22] @ js '',\<newline>'' @
     [0x20, 0x20, 0x22] @ js ''paragraph'' @ [0x22] @ js '': '' @ [0x22] @ js ''...'' @ [0x22] @ js ''\<newline>}\<newline>\<newline>'' @
     js ''Conversation turn to summarize:\<newline>'' @ fullTurn turnData"

text \<open>
  The loop over \<open>modelsToTry\<close> inside the function given to \<open>retryWithBackoff\<close>.
  Every failure of a candidate ends in \<open>continue\<close>: status 404 directly, and the two
  \<open>throw\<close> statements and any other exception through the \<open>catch\<close> of the loop body.
\<close>

fun tryModels :: "world \<Rightarrow> turn \<Rightarrow> jsstring list \<Rightarrow> jsstring option \<Rightarrow> state \<Rightarrow> (jsstring + turnSummary) \<times> state" where
  "tryModels w turnData [] lastError s =
     (Inl (case lastError of Some error \<Rightarrow> error | None \<Rightarrow> js ''All models failed''), s)"
| "tryModels w turnData (model # rest) lastError s =
     (let s1 = emit (Requested model (prompt turnData)) (s\<lparr>requests := requests s + 1\<rparr>)
      in case anthropic w (requests s) model (prompt turnData) of
           Answered content \<Rightarrow>
             (let summaries = parseSummaries w content
              in (Inr \<lparr>summaryTurnNumber = turnNumber turnData,
                       oneLine = fst summaries,
                       paragraph = snd summaries,
                       sourceUser = user turnData,
                       sourceAssistant = assistant turnData\<rparr>, s1))
         | Unavailable \<Rightarrow>
             tryModels w turnData rest (Some (js ''Model not found: '' @ model)) (emit (Skipped model) s1)
         | RateLimited errorMessage \<Rightarrow>
             (let error = js ''Rate limit (429): '' @ errorMessage
              in tryModels w turnData rest (Some error) (emit (ModelFailed model error) s1))
         | Refused errorMessage \<Rightarrow>
             (let error = js ''API Error: '' @ errorMessage
              in tryModels w turnData rest (Some error) (emit (ModelFailed model error) s1))
         | Broken error \<Rightarrow>
             tryModels w turnData rest (Some error) (emit (ModelFailed model error) s1))"

definition handleSummarization :: "world \<Rightarrow> turn \<Rightarrow> state \<Rightarrow> (thrown + turnSummary) \<times> state" where
  "handleSummarization w turnData s =
     retryWithBackoff (tryModels w turnData modelsToTry None) 3 1000 s"

section \<open>The Document Builder\<close>

definition turnToggle :: "turnSummary \<Rightarrow> block" where
  "turnToggle summary =
     Toggle [Text (oneLine summary)]
       [Paragraph [Text (paragraph summary)],
        Toggle [Text (js ''Source Text'')] []]"

definition notionRequest :: "event \<Rightarrow> state \<Rightarrow> state" where
  "notionRequest e s = emit e (s\<lparr>notionRequests := notionRequests s + 1\<rparr>)"

text \<open>\<open>errorData.message || other\<close>: the message field when it is a non-empty string.\<close>

definition messageOr :: "error_body \<Rightarrow> jsstring \<Rightarrow> jsstring" where
  "messageOr errorData other =
     (case errorData of
        Json stringified (Some m) \<Rightarrow> if m \<noteq> [] then m else other
      | _ \<Rightarrow> other)"

text \<open>
  The body of the population loop, the same in \<open>createNotionToggles\<close> and
  \<open>appendNotionToggles\<close>: read the children of the turn's toggle, and when the second
  child is a toggle, write the chunked source text into it and wait 200 ms. A non-2xx
  answer to the read is \<open>continue\<close>; the answer to the write is not looked at. In
  \<open>appendNotionToggles\<close> the summary \<open>summaries[i]\<close> is \<open>undefined\<close> beyond the end
  of \<open>summaries\<close>, and reading its \<open>sourceUser\<close> throws.
\<close>

definition populateTurn ::
  "world \<Rightarrow> int \<Rightarrow> jsstring \<Rightarrow> turnSummary option \<Rightarrow> state \<Rightarrow> ((jsstring + unit) \<times> state) option" where
  "populateTurn w NOTION_BLOCK_LIMIT turnBlockId summary s =
     (let s1 = notionRequest (NotionGet turnBlockId) s
      in case notion w (notionRequests s) of
           NotionDown error \<Rightarrow> Some (Inl error, s1)
         | NotionRefused st stText body \<Rightarrow> Some (Inr (), s1)
         | NotionGarbled error \<Rightarrow> Some (Inl error, s1)
         | NotionOk results \<Rightarrow>
             if 1 < length results \<and> snd (results ! 1) = js ''toggle'' then
               (case summary of
                  None \<Rightarrow>
                    Some (Inl (js ''Cannot read properties of undefined (reading 'sourceUser')''), s1)
                | Some summary \<Rightarrow>
                    (case sourceTextChildren summary NOTION_BLOCK_LIMIT of
                       None \<Rightarrow> None
                     | Some children \<Rightarrow>
                         (let s2 = notionRequest (NotionPatch (fst (results ! 1)) children) s1
                          in case notion w (notionRequests s1) of
                               NotionDown error \<Rightarrow> Some (Inl error, s2)
                             | _ \<Rightarrow> Some (Inr (), sleep 200 s2))))
             else Some (Inr (), s1))"

fun populate ::
  "world \<Rightarrow> int \<Rightarrow> (jsstring \<times> turnSummary option) list \<Rightarrow> state \<Rightarrow> ((jsstring + unit) \<times> state) option" where
  "populate w NOTION_BLOCK_LIMIT [] s = Some (Inr (), s)"
| "populate w NOTION_BLOCK_LIMIT ((turnBlockId, summary) # rest) s =
     (case populateTurn w NOTION_BLOCK_LIMIT turnBlockId summary s of
        None \<Rightarrow> None
      | Some (Inl error, s1) \<Rightarrow> Some (Inl error, s1)
      | Some (Inr u, s1) \<Rightarrow> populate w NOTION_BLOCK_LIMIT rest s1)"

definition masterToggle :: "world \<Rightarrow> turnSummary list \<Rightarrow> jsstring \<Rightarrow> jsstring \<Rightarrow> block" where
  "masterToggle w summaries chatTitle conversationUrl =
     Toggle [Text (if chatTitle \<noteq> [] then chatTitle else js ''Claude Conversation'')]
       (Paragraph
          [Text (js ''Exported on '' @ toLocaleString w @ [0x20, 0x2022, 0x20] @
                 numToString (length summaries) @ js '' turns'' @ [0x20, 0x2022, 0x20]),
           Link (js ''View original'') conversationUrl]
        # map turnToggle summaries)"

text \<open>
  \<open>createNotionToggles\<close>: write the skeleton under the page, read the children of the
  new master toggle, and populate the turn toggles \<open>results[1]\<close>, \<open>results[2]\<close>, ...
  with \<open>summaries[0]\<close>, \<open>summaries[1]\<close>, ... as long as both last. It returns the id of
  the master toggle.
\<close>

definition createNotionToggles ::
  "world \<Rightarrow> turnSummary list \<Rightarrow> jsstring \<Rightarrow> jsstring \<Rightarrow> jsstring \<Rightarrow> int \<Rightarrow> state \<Rightarrow>
     ((jsstring + jsstring) \<times> state) option" where
  "createNotionToggles w summaries pageId chatTitle conversationUrl NOTION_BLOCK_LIMIT s =
     (let s1 = notionRequest (NotionPatch pageId [masterToggle w summaries chatTitle conversationUrl]) s
      in case notion w (notionRequests s) of
           NotionDown error \<Rightarrow> Some (Inl error, s1)
         | NotionRefused st stText errorData \<Rightarrow>
             Some (Inl (js ''Notion API Error: '' @ messageOr errorData stText), s1)
         | NotionGarbled error \<Rightarrow> Some (Inl error, s1)
         | NotionOk results1 \<Rightarrow>
             (case results1 of
                [] \<Rightarrow> Some (Inl (js ''Cannot read properties of undefined (reading 'id')''), s1)
              | (masterBlockId, ty) # others \<Rightarrow>
                  (let s2 = notionRequest (NotionGet masterBlockId) s1
                   in case notion w (notionRequests s1) of
                        NotionDown error \<Rightarrow> Some (Inl error, s2)
                      | NotionRefused st stText errorData \<Rightarrow>
                          Some (Inl (js ''Notion API Error: '' @
                                  (case errorData of
                                     NoJson \<Rightarrow> if stText \<noteq> [] then stText else js ''HTTP '' @ numToString st
                                   | Json stringified m \<Rightarrow> messageOr errorData stringified)), s2)
                      | NotionGarbled error \<Rightarrow> Some (Inl error, s2)
                      | NotionOk masterChildren \<Rightarrow>
                          (case populate w NOTION_BLOCK_LIMIT
                                  (zip (map fst (tl masterChildren)) (map Some summaries)) s2 of
                             None \<Rightarrow> None
                           | Some (Inl error, s3) \<Rightarrow> Some (Inl error, s3)
                           | Some (Inr u, s3) \<Rightarrow> Some (Inr masterBlockId, s3)))))"

text \<open>
  \<open>appendNotionToggles\<close> (its parameter \<open>parentBlockId\<close> is \<open>parentId\<close> here):
  write the skeletons of the new turns under the existing master toggle and populate the blocks the answer lists, \<open>results[i]\<close> with
  \<open>summaries[i]\<close>.
\<close>

definition appendNotionToggles ::
  "world \<Rightarrow> turnSummary list \<Rightarrow> jsstring \<Rightarrow> int \<Rightarrow> state \<Rightarrow> ((jsstring + unit) \<times> state) option" where
  "appendNotionToggles w summaries parentId NOTION_BLOCK_LIMIT s =
     (let s1 = notionRequest (NotionPatch parentId (map turnToggle summaries)) s
      in case notion w (notionRequests s) of
           NotionDown error \<Rightarrow> Some (Inl error, s1)
         | NotionRefused st stText errorData \<Rightarrow>
             Some (Inl (js ''Notion API Error: '' @ messageOr errorData stText), s1)
         | NotionGarbled error \<Rightarrow> Some (Inl error, s1)
         | NotionOk results1 \<Rightarrow>
             populate w NOTION_BLOCK_LIMIT
               (zip (map fst results1) (map Some summaries @ replicate (length results1) None)) s1)"

section \<open>The Export Orchestrator\<close>

record exportData =
  turns :: "turn list"
  chatTitle :: jsstring
  conversationUrl :: jsstring
  pageId :: jsstring
  exportMode :: jsstring
  existingExportData :: "exportRecord option"

definition updateProgress :: "jsstring \<Rightarrow> nat \<Rightarrow> nat \<Rightarrow> jsstring \<Rightarrow> state \<Rightarrow> state" where
  "updateProgress st cur tot msg s =
     s\<lparr>exportProgress := Some \<lparr>status = st, current = cur, total = tot, message = msg\<rparr>\<rparr>"

definition storeExportHistory :: "jsstring \<Rightarrow> exportRecord \<Rightarrow> state \<Rightarrow> state" where
  "storeExportHistory url exportData s = s\<lparr>exportHistory := (exportHistory s)(url \<mapsto> exportData)\<rparr>"

definition getExportHistory :: "jsstring \<Rightarrow> state \<Rightarrow> exportRecord option" where
  "getExportHistory url s = exportHistory s url"

text \<open>The placeholder pushed when \<open>handleSummarization\<close> throws.\<close>

definition failedSummary :: "turn \<Rightarrow> turnSummary" where
  "failedSummary turn =
     \<lparr>summaryTurnNumber = turnNumber turn,
      oneLine = js ''Turn '' @ numToString (turnNumber turn) @ js '' (summary failed)'',
      paragraph = js ''Summary generation failed for this turn.'',
      sourceUser = user turn,
      sourceAssistant = assistant turn\<rparr>"

text \<open>
  The \<open>for\<close> loop of \<open>handleFullExport\<close> over \<open>turnsToProcess\<close>, from index \<open>i\<close> on:
  the list argument is what is left of \<open>turnsToProcess\<close>, \<open>count\<close> is
  \<open>turnsToProcess.length\<close> and \<open>len\<close> is \<open>turns.length\<close>. The result lists the
  summaries pushed from \<open>i\<close> on.
\<close>

fun summarizeTurns ::
  "world \<Rightarrow> turn list \<Rightarrow> nat \<Rightarrow> nat \<Rightarrow> nat \<Rightarrow> nat \<Rightarrow> state \<Rightarrow> turnSummary list \<times> state" where
  "summarizeTurns w [] i count startIndex len s = ([], s)"
| "summarizeTurns w (turn # rest) i count startIndex len s =
     (let s1 = updateProgress (js ''summarizing'') i count
                 (js ''Processing turn '' @ numToString (startIndex + i + 1) @ js '' of '' @
                  numToString len @ js ''...'') s;
          (outcome, s2) = handleSummarization w turn s1;
          (summary, s3) =
            (case outcome of
               Inr summary \<Rightarrow> (summary, s2)
             | Inl error \<Rightarrow> (failedSummary turn, emit (SummaryError (startIndex + i + 1) error) s2));
          s4 = (if int i < int count - 1 then sleep 800 s3 else s3);
          (summaries, s5) = summarizeTurns w rest (i + 1) count startIndex len s4
      in (summary # summaries, s5))"

text \<open>The \<open>catch\<close> block of \<open>handleFullExport\<close>.\<close>

definition exportFailed :: "jsstring \<Rightarrow> state \<Rightarrow> (jsstring + unit) \<times> state" where
  "exportFailed error s =
     (Inl error, emit (Notified (js ''Export Failed'') error) (updateProgress (js ''error'') 0 0 error s))"

text \<open>
  The value of \<open>exportMode === 'update' && existingExportData\<close>, tested twice in
  \<open>handleFullExport\<close>: the stored record in update mode, nothing otherwise.
\<close>

definition updateFrom :: "exportData \<Rightarrow> exportRecord option" where
  "updateFrom d = (if exportMode d = js ''update'' then existingExportData d else None)"

text \<open>
  The \<open>try\<close> block of \<open>handleFullExport\<close> once \<open>turnsToProcess\<close> and
  \<open>startIndex\<close> are set: progress, the summarization loop, the Document Builder, the
  export history, the notification.
\<close>

definition exportSlice ::
  "world \<Rightarrow> exportData \<Rightarrow> turn list \<Rightarrow> nat \<Rightarrow> state \<Rightarrow> ((jsstring + unit) \<times> state) option" where
  "exportSlice w d turnsToProcess startIndex s =
     (let NOTION_BLOCK_LIMIT = 2000;
          s1 = updateProgress (js ''starting'') 0 (length turnsToProcess) (js ''Starting export...'') s;
          (summaries, s2) = summarizeTurns w turnsToProcess 0 (length turnsToProcess) startIndex
                              (length (turns d)) s1;
          s3 = updateProgress (js ''creating'') (length turnsToProcess) (length turnsToProcess)
                 (js ''Creating Notion blocks...'') s2;
          written =
            (case updateFrom d of
               Some existing \<Rightarrow>
                 (case appendNotionToggles w summaries (parentBlockId existing) NOTION_BLOCK_LIMIT s3 of
                    None \<Rightarrow> None
                  | Some (Inl error, s4) \<Rightarrow> Some (Inl error, s4)
                  | Some (Inr u, s4) \<Rightarrow> Some (Inr (parentBlockId existing), s4))
             | None \<Rightarrow>
                 createNotionToggles w summaries (pageId d) (chatTitle d) (conversationUrl d)
                   NOTION_BLOCK_LIMIT s3)
      in case written of
           None \<Rightarrow> None
         | Some (Inl error, s4) \<Rightarrow> Some (exportFailed error s4)
         | Some (Inr parentId, s4) \<Rightarrow>
             (let s5 = storeExportHistory (conversationUrl d)
                         \<lparr>recordUrl = conversationUrl d,
                          conversationTitle = chatTitle d,
                          exportedAt = toISOString w,
                          turnCount = length (turns d),
                          notionPageId = pageId d,
                          parentBlockId = parentId\<rparr> s4;
                  s6 = s5\<lparr>exportProgress := None\<rparr>;
                  successMessage =
                    (if exportMode d = js ''update''
                     then js ''Successfully added '' @ numToString (length turnsToProcess) @
                          js '' new turns to Notion!''
                     else js ''Successfully exported '' @ numToString (length (turns d)) @
                          js '' turns to Notion!'')
              in Some (Inr (),
                   emit (Notified (if exportMode d = js ''update'' then js ''Update Complete''
                                   else js ''Export Complete'') successMessage) s6)))"

text \<open>
  \<open>handleFullExport\<close>: in update mode only the turns beyond the stored \<open>turnCount\<close>
  are processed, and an empty slice is an error; otherwise all turns are.
\<close>

definition handleFullExport :: "world \<Rightarrow> exportData \<Rightarrow> state \<Rightarrow> ((jsstring + unit) \<times> state) option" where
  "handleFullExport w d s =
     (case updateFrom d of
        Some existing \<Rightarrow>
          (let startIndex = turnCount existing;
               turnsToProcess = drop startIndex (turns d)
           in if length turnsToProcess = 0 then Some (exportFailed (js ''No new turns to export'') s)
              else exportSlice w d turnsToProcess startIndex s)
      | None \<Rightarrow> exportSlice w d (turns d) 0 s)"

section \<open>Observing a run\<close>

text \<open>
  Read off a list of events: the models and the prompts of the summarization requests,
  the positions of the turns logged as failed, the delays, and the writes to the
  destination document (block id and children).
\<close>

fun requestedModel :: "event \<Rightarrow> jsstring list" where
  "requestedModel (Requested model p) = [model]"
| "requestedModel e = []"

definition requestedModels :: "event list \<Rightarrow> jsstring list" where
  "requestedModels evs = concat (map requestedModel evs)"

fun requestedPrompt :: "event \<Rightarrow> jsstring list" where
  "requestedPrompt (Requested model p) = [p]"
| "requestedPrompt e = []"

definition requestedPrompts :: "event list \<Rightarrow> jsstring list" where
  "requestedPrompts evs = concat (map requestedPrompt evs)"

fun summaryError :: "event \<Rightarrow> nat list" where
  "summaryError (SummaryError position error) = [position]"
| "summaryError e = []"

definition summaryErrors :: "event list \<Rightarrow> nat list" where
  "summaryErrors evs = concat (map summaryError evs)"

fun slept :: "event \<Rightarrow> int list" where
  "slept (Slept ms) = [ms]"
| "slept e = []"

definition sleeps :: "event list \<Rightarrow> int list" where
  "sleeps evs = concat (map slept evs)"

fun notionPatch :: "event \<Rightarrow> (jsstring \<times> block list) list" where
  "notionPatch (NotionPatch blockId children) = [(blockId, children)]"
| "notionPatch e = []"

definition notionPatches :: "event list \<Rightarrow> (jsstring \<times> block list) list" where
  "notionPatches evs = concat (map notionPatch evs)"

fun isAnswered :: "api_reply \<Rightarrow> bool" where
  "isAnswered (Answered content) = True"
| "isAnswered r = False"

text \<open>
  \<open>promptsOf counts ts\<close>: the prompt of each turn of \<open>ts\<close> in order, the \<open>i\<close>-th one
  repeated \<open>counts ! i\<close> times.
\<close>

definition promptsOf :: "nat list \<Rightarrow> turn list \<Rightarrow> jsstring list" where
  "promptsOf counts ts = concat (map (\<lambda>(k, t). replicate k (prompt t)) (zip counts ts))"

text \<open>
  \<open>summarizing p k s s'\<close>: from \<open>s\<close> to \<open>s'\<close> the run only talked to the summarization
  API, with \<open>k\<close> requests, each carrying the prompt \<open>p\<close>.
\<close>

definition summarizing :: "jsstring \<Rightarrow> nat \<Rightarrow> state \<Rightarrow> state \<Rightarrow> bool" where
  "summarizing p k s s' \<longleftrightarrow>
     (\<exists>evs. trace s' = trace s @ evs \<and> requestedPrompts evs = replicate k p \<and>
        notionPatches evs = [] \<and> summaryErrors evs = []) \<and>
     exportHistory s' = exportHistory s \<and> notionRequests s' = notionRequests s"

text \<open>
  \<open>building summaries L s s'\<close>: from \<open>s\<close> to \<open>s'\<close> the run only talked to the
  destination service, and every write carried the chunked source text of one of
  \<open>summaries\<close>.
\<close>

definition building :: "turnSummary list \<Rightarrow> int \<Rightarrow> state \<Rightarrow> state \<Rightarrow> bool" where
  "building summaries L s s' \<longleftrightarrow>
     (\<exists>evs. trace s' = trace s @ evs \<and> requestedPrompts evs = [] \<and> summaryErrors evs = [] \<and>
        list_all (\<lambda>(blockId, blocks). \<exists>summary\<in>set summaries. sourceTextChildren summary L = Some blocks)
          (notionPatches evs)) \<and>
     exportHistory s' = exportHistory s \<and> exportProgress s' = exportProgress s \<and>
     requests s' = requests s \<and> notionRequests s \<le> notionRequests s'"

text \<open>The state before a run: nothing requested, nothing stored.\<close>

definition idle :: state where
  "idle = \<lparr>requests = 0, notionRequests = 0, exportProgress = None,
           exportHistory = (\<lambda>url. None), trace = []\<rparr>"

section \<open>Concrete inputs\<close>

text \<open>
  Two turns, a stored record, a full export of one turn, an update with no new turn and an
  update with one new turn; a world in which no model is available and the destination
  service refuses every request, and one in which the third request to the summarization
  API is answered and the destination service accepts every request; a computation that
  is rate limited twice and one that fails for good.
\<close>

definition turnA :: turn where
  "turnA = \<lparr>turnNumber = 1, user = js ''hi'', assistant = js ''hello''\<rparr>"

definition turnB :: turn where
  "turnB = \<lparr>turnNumber = 2, user = js ''more'', assistant = js ''sure''\<rparr>"

definition storedA :: exportRecord where
  "storedA = \<lparr>recordUrl = js ''https://claude.ai/chat/1'', conversationTitle = js ''Chat'',
              exportedAt = js ''2025-01-01T00:00:00.000Z'', turnCount = 1,
              notionPageId = js ''page'', parentBlockId = js ''master''\<rparr>"

definition exportA :: exportData where
  "exportA = \<lparr>turns = [turnA], chatTitle = js ''Chat'', conversationUrl = js ''https://claude.ai/chat/1'',
              pageId = js ''page'', exportMode = js ''full'', existingExportData = None\<rparr>"

definition updateA :: exportData where
  "updateA = exportA\<lparr>exportMode := js ''update'', existingExportData := Some storedA\<rparr>"

definition updateAB :: exportData where
  "updateAB = updateA\<lparr>turns := [turnA, turnB]\<rparr>"

definition silentWorld :: world where
  "silentWorld = \<lparr>anthropic = (\<lambda>k model p. Unavailable), parseSummaries = (\<lambda>content. (content, content)),
                  notion = (\<lambda>k. NotionRefused 400 (js ''Bad Request'') NoJson),
                  toISOString = js ''2025-01-02T00:00:00.000Z'', toLocaleString = js ''1/2/2025''\<rparr>"

definition thirdModelWorld :: world where
  "thirdModelWorld = silentWorld\<lparr>anthropic := (\<lambda>k model p. if k < 2 then Unavailable else Answered (js ''ok'')),
                  notion := (\<lambda>k. NotionOk [(js ''master'', js ''toggle'')])\<rparr>"

text \<open>
  A computation that always rejects with the given message. Two worlds of failing
  summarization requests: every request is answered with status 500 and a body whose
  \<open>error.message\<close> is \<open>Internal server error\<close>; every request is answered with
  status 400 and a body whose \<open>error.message\<close> is \<open>max_tokens: 5 is too low\<close>.
\<close>

definition rejecting :: "jsstring \<Rightarrow> state \<Rightarrow> (jsstring + unit) \<times> state" where
  "rejecting errorMessage s = (Inl errorMessage, s)"

definition serverErrorWorld :: world where
  "serverErrorWorld = silentWorld\<lparr>anthropic := (\<lambda>k model p. Refused (js ''Internal server error''))\<rparr>"

definition badRequestWorld :: world where
  "badRequestWorld = silentWorld\<lparr>anthropic := (\<lambda>k model p. Refused (js ''max_tokens: 5 is too low''))\<rparr>"


text \<open>
  A 4500-character text that ends in whitespace: 2000 letters followed by 2500 blanks.
  \<open>words n\<close> is the word \<open>abcd\<close> and a blank, \<open>n\<close> times; \<open>words 900\<close> has
  4500 characters.
\<close>

definition blanks4500 :: jsstring where
  "blanks4500 = replicate 2000 0x61 @ replicate 2500 0x20"


section \<open>Properties of the string primitives\<close>

lemma lastIndexFrom_bounds: "- 1 \<le> lastIndexFrom s pat i \<and> lastIndexFrom s pat i \<le> int i"
  by (induction i) auto

lemma lastIndexOf_upper: "0 \<le> pos \<Longrightarrow> lastIndexOf s pat pos \<le> pos"
proof -
  assume p: "0 \<le> pos"
  have "lastIndexFrom s pat (min (nat pos) (length s - length pat)) \<le> int (min (nat pos) (length s - length pat))"
    using lastIndexFrom_bounds by blast
  also have "\<dots> \<le> pos" using p by simp
  finally show ?thesis using p by (simp add: lastIndexOf_def)
qed

lemma breakPointOf_bounds: "1 \<le> L \<Longrightarrow> 1 \<le> breakPointOf r L \<and> breakPointOf r L \<le> L + 2"
  using lastIndexOf_upper[of L r "js ''. ''"] lastIndexOf_upper[of L r "js ''\<newline>\<newline>''"]
  by (auto simp: breakPointOf_def Let_def)

lemma trimEnd_split: "\<exists>w. all_ws w \<and> s = trimEnd s @ w"
proof -
  have "rev s = takeWhile is_ws (rev s) @ dropWhile is_ws (rev s)" by simp
  then have "s = rev (dropWhile is_ws (rev s)) @ rev (takeWhile is_ws (rev s))"
    by (metis rev_append rev_rev_ident)
  moreover have "all_ws (rev (takeWhile is_ws (rev s)))"
    by (simp add: all_ws_def list_all_iff) (metis set_takeWhileD)
  ultimately show ?thesis by (auto simp: trimEnd_def)
qed

lemma trimStart_split: "\<exists>w. all_ws w \<and> s = w @ trimStart s"
proof -
  have "s = takeWhile is_ws s @ dropWhile is_ws s" by simp
  moreover have "all_ws (takeWhile is_ws s)"
    by (simp add: all_ws_def list_all_iff) (metis set_takeWhileD)
  ultimately show ?thesis unfolding trimStart_def by blast
qed

lemma trim_split: "\<exists>w1 w2. all_ws w1 \<and> all_ws w2 \<and> s = w1 @ trim s @ w2"
proof -
  obtain w2 where w2: "all_ws w2" "s = trimEnd s @ w2" using trimEnd_split by blast
  obtain w1 where w1: "all_ws w1" "trimEnd s = w1 @ trimStart (trimEnd s)" using trimStart_split by blast
  have "s = w1 @ trim s @ w2" unfolding trim_def using w1(2) w2(2) by (metis append.assoc)
  then show ?thesis using w1(1) w2(1) by blast
qed

lemma length_trim: "length (trim s) \<le> length s"
  using trim_split[of s] by (metis length_append le_add1 le_add2 le_trans)

lemma all_ws_append: "all_ws (a @ b) \<longleftrightarrow> all_ws a \<and> all_ws b"
  by (simp add: all_ws_def)

lemma rebuilds_Nil: "all_ws g \<Longrightarrow> rebuilds [g] [] g"
  by (simp add: rebuilds_def)

lemma rebuilds_Cons: "all_ws g \<Longrightarrow> rebuilds gs cs t \<Longrightarrow> rebuilds (g # gs) (c # cs) (g @ c @ t)"
  by (simp add: rebuilds_def)

lemma rebuilds_prepend: "all_ws w \<Longrightarrow> rebuilds gs cs t \<Longrightarrow> \<exists>gs'. rebuilds gs' cs (w @ t)"
proof -
  assume w: "all_ws w" and r: "rebuilds gs cs t"
  then obtain g rest where gs: "gs = g # rest" by (cases gs) (auto simp: rebuilds_def)
  have "rebuilds ((w @ g) # rest) cs (w @ t)"
    using w r gs by (cases cs) (auto simp: rebuilds_def all_ws_append)
  then show ?thesis by blast
qed

lemma rebuilds_append: "all_ws w \<Longrightarrow> rebuilds gs cs t \<Longrightarrow> \<exists>gs'. rebuilds gs' cs (t @ w)"
proof (induction cs arbitrary: gs t)
  case Nil
  then obtain g where "gs = [g]" by (cases gs) (auto simp: rebuilds_def)
  then have "rebuilds [g @ w] [] (t @ w)" using Nil by (auto simp: rebuilds_def all_ws_append)
  then show ?case by blast
next
  case (Cons c cs)
  then obtain g rest where gs: "gs = g # rest" by (cases gs) (auto simp: rebuilds_def)
  have r: "rebuilds rest cs (weave rest cs)" and g: "all_ws g" and t: "t = g @ c @ weave rest cs"
    using Cons.prems gs by (auto simp: rebuilds_def)
  obtain rest' where "rebuilds rest' cs (weave rest cs @ w)" using Cons.IH[OF Cons.prems(1) r] by blast
  then have "rebuilds (g # rest') (c # cs) (g @ c @ weave rest cs @ w)" using g by (rule_tac rebuilds_Cons)
  then show ?case using t by auto
qed

lemma rebuilds_filter: "rebuilds gs cs t \<Longrightarrow> filter (\<lambda>c. \<not> is_ws c) (concat cs) = filter (\<lambda>c. \<not> is_ws c) t"
proof (induction cs arbitrary: gs t)
  case Nil
  then obtain g where "gs = [g]" "all_ws g" "t = g" by (cases gs) (auto simp: rebuilds_def)
  then show ?case by (simp add: all_ws_def list_all_iff)
next
  case (Cons c cs)
  then obtain g rest where gs: "gs = g # rest" by (cases gs) (auto simp: rebuilds_def)
  have r: "rebuilds rest cs (weave rest cs)" and g: "all_ws g" and t: "t = g @ c @ weave rest cs"
    using Cons.prems gs by (auto simp: rebuilds_def)
  have "filter (\<lambda>c. \<not> is_ws c) g = []" using g by (simp add: all_ws_def list_all_iff)
  then show ?case using Cons.IH[OF r] t by simp
qed

lemma chunkLoop_rebuilds:
  "1 \<le> L \<Longrightarrow> \<exists>cs gs. chunkLoop r L acc = Some (acc @ cs) \<and> rebuilds gs cs r"
proof (induction "length r" arbitrary: r acc rule: less_induct)
  case less
  show ?case
  proof (cases "r = []")
    case True
    then show ?thesis using rebuilds_Nil[of "[]"] by (subst chunkLoop.simps) (auto simp: all_ws_def)
  next
    case ne: False
    show ?thesis
    proof (cases "int (length r) \<le> L")
      case True
      have "rebuilds [[], []] [r] r" by (simp add: rebuilds_def all_ws_def)
      then show ?thesis using ne True by (subst chunkLoop.simps) auto
    next
      case False
      define bp where "bp = breakPointOf r L"
      define r' where "r' = trim (substringFrom r bp)"
      define c where "c = trim (substringTo r bp)"
      have bp: "1 \<le> bp" using breakPointOf_bounds[OF less.prems] by (simp add: bp_def)
      have "length r' \<le> length (drop (nat bp) r)" unfolding r'_def substringFrom_def by (rule length_trim)
      also have "\<dots> < length r" using bp ne by simp
      finally have lt: "length r' < length r" .
      obtain cs gs where rec: "chunkLoop r' L (acc @ [c]) = Some ((acc @ [c]) @ cs)" "rebuilds gs cs r'"
        using less.hyps[OF lt less.prems] by blast
      obtain a1 a2 where a: "all_ws a1" "all_ws a2" "take (nat bp) r = a1 @ c @ a2"
        using trim_split[of "take (nat bp) r"] by (auto simp: c_def substringTo_def)
      obtain b1 b2 where b: "all_ws b1" "all_ws b2" "drop (nat bp) r = b1 @ r' @ b2"
        using trim_split[of "drop (nat bp) r"] by (auto simp: r'_def substringFrom_def)
      obtain gs1 where g1: "rebuilds gs1 cs (r' @ b2)" using rebuilds_append[OF b(2) rec(2)] by blast
      have "all_ws (a2 @ b1)" using a b by (simp add: all_ws_append)
      then obtain gs2 where g2: "rebuilds gs2 cs ((a2 @ b1) @ r' @ b2)" using rebuilds_prepend g1 by blast
      have "rebuilds (a1 # gs2) (c # cs) (a1 @ c @ (a2 @ b1) @ r' @ b2)" using a(1) g2 by (rule rebuilds_Cons)
      moreover have "r = a1 @ c @ (a2 @ b1) @ r' @ b2"
        using a(3) b(3) append_take_drop_id[of "nat bp" r] by simp
      ultimately have "rebuilds (a1 # gs2) (c # cs) r" by simp
      moreover have "chunkLoop r L acc = Some (acc @ (c # cs))"
        using ne False rec(1) by (subst chunkLoop.simps) (simp add: r'_def c_def bp_def)
      ultimately show ?thesis by blast
    qed
  qed
qed

lemma breakPointOf_early_eq: "breakPointOf_early r L = breakPointOf r L"
  by (simp add: breakPointOf_early_def breakPointOf_def)

lemma chunkLoop_early_le:
  assumes "chunkLoop_early r L acc = Some y"
  shows "chunkLoop r L acc = Some y"
  using assms
proof (rule chunkLoop_early.raw_induct[rotated, where P = "\<lambda>r L acc y. chunkLoop r L acc = Some y"])
  fix f remaining maxLength chunks z
  assume "\<And>a b c y. f a b c = Some y \<Longrightarrow> chunkLoop a b c = Some y"
    and "(if 0 < length remaining then
            if int (length remaining) \<le> maxLength then Some (chunks @ [remaining])
            else f (trim (substringFrom remaining (breakPointOf_early remaining maxLength))) maxLength
                   (chunks @ [trim (substringTo remaining (breakPointOf_early remaining maxLength))])
          else Some chunks) = Some z"
  then show "chunkLoop remaining maxLength chunks = Some z"
    by (subst chunkLoop.simps) (auto simp: breakPointOf_early_eq split: if_splits)
qed

lemma chunkLoop_le_early:
  assumes "chunkLoop r L acc = Some y"
  shows "chunkLoop_early r L acc = Some y"
  using assms
proof (rule chunkLoop.raw_induct[rotated, where P = "\<lambda>r L acc y. chunkLoop_early r L acc = Some y"])
  fix f remaining maxLength chunks z
  assume "\<And>a b c y. f a b c = Some y \<Longrightarrow> chunkLoop_early a b c = Some y"
    and "(if 0 < length remaining then
            if int (length remaining) \<le> maxLength then Some (chunks @ [remaining])
            else f (trim (substringFrom remaining (breakPointOf remaining maxLength))) maxLength
                   (chunks @ [trim (substringTo remaining (breakPointOf remaining maxLength))])
          else Some chunks) = Some z"
  then show "chunkLoop_early remaining maxLength chunks = Some z"
    by (subst chunkLoop_early.simps) (auto simp: breakPointOf_early_eq split: if_splits)
qed

lemma chunkLoop_early_eq: "chunkLoop_early r L acc = chunkLoop r L acc"
proof (cases "chunkLoop_early r L acc")
  case None
  then show ?thesis using chunkLoop_le_early[of r L acc] by (cases "chunkLoop r L acc") auto
next
  case (Some y)
  then show ?thesis using chunkLoop_early_le by simp
qed

lemma lastIndexFrom_none:
  "(\<forall>j\<le>i. \<not> matchesAt s pat j) \<Longrightarrow> lastIndexFrom s pat i = - 1"
  by (induction i) auto

lemma lastIndexFrom_eq:
  "j \<le> i \<Longrightarrow> matchesAt s pat j \<Longrightarrow> (\<forall>k. j < k \<and> k \<le> i \<longrightarrow> \<not> matchesAt s pat k) \<Longrightarrow>
   lastIndexFrom s pat i = int j"
proof (induction i)
  case 0
  then show ?case by simp
next
  case (Suc i)
  show ?case
  proof (cases "j = Suc i")
    case True
    then show ?thesis using Suc.prems by simp
  next
    case False
    then have "j \<le> i" using Suc.prems by simp
    moreover have "\<not> matchesAt s pat (Suc i)" using Suc.prems False by auto
    ultimately show ?thesis using Suc by simp
  qed
qed

lemma matchesAt_pair:
  "matchesAt s [p, q] k \<longleftrightarrow> Suc k < length s \<and> s ! k = p \<and> s ! Suc k = q"
proof -
  have "take (Suc (Suc 0)) (drop k s) = [p, q] \<longleftrightarrow> Suc k < length s \<and> s ! k = p \<and> s ! Suc k = q"
  proof (cases "drop k s")
    case Nil
    then show ?thesis by auto
  next
    case (Cons a t)
    note c1 = Cons
    then have k: "k < length s" "s ! k = a" 
      apply (metis drop_eq_Nil2 list.distinct(1) not_le)
      by (metis Cons hd_drop_conv_nth drop_eq_Nil2 list.distinct(1) list.sel(1) not_le)
    have t: "drop (Suc k) s = t" using Cons by (metis drop_Suc list.sel(3) tl_drop)
    show ?thesis
    proof (cases t)
      case Nil
      then show ?thesis using c1 t k by auto
    next
      case (Cons b u)
      then have "Suc k < length s" "s ! Suc k = b" using t
        apply (metis drop_eq_Nil2 list.distinct(1) not_le)
        by (metis Cons t hd_drop_conv_nth drop_eq_Nil2 list.distinct(1) list.sel(1) not_le)
      then show ?thesis using c1 Cons k by auto
    qed
  qed
  then show ?thesis by (simp add: matchesAt_def)
qed

lemma js_sentence: "js ''. '' = [0x2E, 0x20]" by (simp add: js_def)
lemma js_paragraph: "js ''\<newline>\<newline>'' = [0x0A, 0x0A]" by (simp add: js_def)

lemma lastIndexOf_absent:
  "q \<notin> set s \<Longrightarrow> lastIndexOf s [p, q] pos = - 1"
proof -
  assume q: "q \<notin> set s"
  have "\<not> matchesAt s [p, q] j" for j using q by (auto simp: matchesAt_pair)
  then show ?thesis by (simp add: lastIndexOf_def lastIndexFrom_none)
qed

lemma lastIndexOf_absent_first:
  "p \<notin> set s \<Longrightarrow> lastIndexOf s [p, q] pos = - 1"
proof -
  assume p: "p \<notin> set s"
  have "\<not> matchesAt s [p, q] j" for j using p by (auto simp: matchesAt_pair)
  then show ?thesis by (simp add: lastIndexOf_def lastIndexFrom_none)
qed

lemma breakPointOf_no_break:
  "\<not> L < 2 * lastIndexOf r (js ''\<newline>\<newline>'') L \<Longrightarrow> \<not> L < 2 * lastIndexOf r (js ''. '') L \<Longrightarrow>
   breakPointOf r L = L"
  by (simp add: breakPointOf_def Let_def)




lemma chunkLoop_cut_at_limit:
  assumes "breakPointOf r L = L" "L < int (length r)" "0 \<le> L"
  shows "chunkLoop r L acc = chunkLoop (trim (drop (nat L) r)) L (acc @ [trim (take (nat L) r)])"
  using assms by (subst chunkLoop.simps) (auto simp: substringFrom_def substringTo_def)


lemma trimEnd_append_ws: "\<forall>c\<in>set w. is_ws c \<Longrightarrow> trimEnd (s @ w) = trimEnd s"
  using dropWhile_append2[of "rev w" is_ws "rev s"] by (simp add: trimEnd_def)

lemma trimEnd_id: "s \<noteq> [] \<Longrightarrow> \<not> is_ws (last s) \<Longrightarrow> trimEnd s = s"
  by (cases s rule: rev_cases) (auto simp: trimEnd_def)

lemma trimStart_id: "s \<noteq> [] \<Longrightarrow> \<not> is_ws (hd s) \<Longrightarrow> trimStart s = s"
  by (cases s) (auto simp: trimStart_def)

lemma trim_id: "s \<noteq> [] \<Longrightarrow> \<not> is_ws (hd s) \<Longrightarrow> \<not> is_ws (last s) \<Longrightarrow> trim s = s"
  by (simp add: trim_def trimEnd_id trimStart_id)

lemma trim_append_ws:
  "s \<noteq> [] \<Longrightarrow> \<not> is_ws (hd s) \<Longrightarrow> \<not> is_ws (last s) \<Longrightarrow> \<forall>c\<in>set w. is_ws c \<Longrightarrow> trim (s @ w) = s"
  by (simp add: trim_def trimEnd_append_ws trimEnd_id trimStart_id)

lemma lastIndexOf_found:
  assumes "matchesAt s pat j" "int j \<le> pos" "length pat \<le> length s" "j \<le> length s - length pat"
    and "\<forall>k. j < k \<and> int k \<le> pos \<longrightarrow> \<not> matchesAt s pat k"
  shows "lastIndexOf s pat pos = int j"
proof -
  let ?i = "min (nat pos) (length s - length pat)"
  have "j \<le> ?i" using assms(2,4) by simp
  moreover have "\<forall>k. j < k \<and> k \<le> ?i \<longrightarrow> \<not> matchesAt s pat k" using assms(5) by auto
  ultimately have "lastIndexFrom s pat ?i = int j" using assms(1) by (intro lastIndexFrom_eq) auto
  then show ?thesis using assms(3) by (simp add: lastIndexOf_def)
qed

lemma is_ws_simps: "is_ws 0x0A" "is_ws 0x20" "\<not> is_ws 0x61" "\<not> is_ws 0x2E" "\<not> is_ws 0x74" "\<not> is_ws 0x6C"
  by (simp_all add: is_ws_def)




text \<open>
  A second way in which a 4500-character text does not give three chunks: the cut at the
  limit leaves only whitespace, the trim empties the remainder, and one chunk is returned.
\<close>

lemma chunkText_blanks4500: "length blanks4500 = 4500 \<and> chunkText blanks4500 2000 = Some [replicate 2000 0x61]"
proof -
  let ?a = "0x61 :: 16 word"
  have len: "length blanks4500 = 4500" by (simp add: blanks4500_def)
  have "(0x2E :: 16 word) \<notin> set blanks4500" "(0x0A :: 16 word) \<notin> set blanks4500"
    by (simp_all add: blanks4500_def)
  then have bp: "breakPointOf blanks4500 2000 = 2000"
    by (simp add: breakPointOf_def js_sentence js_paragraph lastIndexOf_absent_first)
  have t: "trim (take 2000 blanks4500) = replicate 2000 ?a"
    by (simp add: blanks4500_def trim_id is_ws_simps)
  have "trimEnd (replicate 2500 (0x20 :: 16 word)) = []"
    by (simp add: trimEnd_def is_ws_simps)
  then have d: "trim (drop 2000 blanks4500) = []"
    by (simp add: blanks4500_def trim_def trimStart_def)
  have "chunkLoop blanks4500 2000 [] = chunkLoop [] 2000 [replicate 2000 ?a]"
    using chunkLoop_cut_at_limit[of blanks4500 2000 "[]"] bp len t d by simp
  also have "\<dots> = Some [replicate 2000 ?a]" by (subst chunkLoop.simps) simp
  finally show ?thesis using len by (simp add: chunkText_def)
qed









section \<open>The chunker: claims\<close>

text \<open>
  Claim C1 (no chunk is longer than \<open>maxLength\<close>) fails on the code.
  \<open>lastIndexOf('. ', maxLength)\<close> also finds a sentence break that starts exactly at
  index \<open>maxLength\<close>; the cut is then at \<open>maxLength + 2\<close> and \<open>trim\<close> removes
  only the blank, so the chunk keeps \<open>maxLength + 1\<close> characters. With the limit 2000
  that the Document Builder passes: 2000 letters followed by \<open>". tail"\<close> give a first
  chunk of 2001 characters.
\<close>

theorem chunkText_exceeds_limit:
  "chunkText (replicate 2000 0x61 @ js ''. tail'') 2000 = Some [replicate 2000 0x61 @ js ''.'', js ''tail'']
   \<and> length (replicate 2000 (0x61 :: 16 word) @ js ''.'') = 2001"
proof -
  define T :: jsstring where "T = replicate 2000 0x61 @ js ''. tail''"
  have T: "T = replicate 2000 0x61 @ [0x2E, 0x20, 0x74, 0x61, 0x69, 0x6C]" by (simp add: T_def js_def)
  have len: "length T = 2006" by (simp add: T)
  have m: "matchesAt T [0x2E, 0x20] 2000" by (simp add: matchesAt_pair T nth_append)
  have "lastIndexOf T [0x2E, 0x20] 2000 = int 2000"
    using m len by (intro lastIndexOf_found) auto
  then have sb: "lastIndexOf T (js ''. '') 2000 = 2000" by (simp add: js_sentence)
  have "(0x0A :: 16 word) \<notin> set T" by (simp add: T)
  then have pb: "lastIndexOf T (js ''\<newline>\<newline>'') 2000 = - 1"
    by (simp add: js_paragraph lastIndexOf_absent)
  have bp: "breakPointOf T 2000 = 2002" by (simp add: breakPointOf_def sb pb)
  have tk: "take 2002 T = (replicate 2000 0x61 @ [0x2E]) @ [0x20]" by (simp add: T)
  have c: "trim (take 2002 T) = replicate 2000 0x61 @ [0x2E]"
    unfolding tk by (rule trim_append_ws) (simp_all add: is_ws_simps hd_append)
  have r: "trim (drop 2002 T) = [0x74, 0x61, 0x69, 0x6C]"
    by (simp add: T trim_id is_ws_simps)
  have "chunkLoop T 2000 [] = chunkLoop [0x74, 0x61, 0x69, 0x6C] 2000 [replicate 2000 0x61 @ [0x2E]]"
    by (subst chunkLoop.simps) (simp add: len bp substringFrom_def substringTo_def c r)
  also have "\<dots> = Some [replicate 2000 0x61 @ [0x2E], [0x74, 0x61, 0x69, 0x6C]]"
    by (subst chunkLoop.simps) simp
  finally have "chunkText T 2000 = Some [replicate 2000 0x61 @ [0x2E], [0x74, 0x61, 0x69, 0x6C]]"
    by (simp add: chunkText_def len)
  then show ?thesis by (simp add: T_def js_def)
qed

text \<open>
  Claim C8 (round trip). For every text \<open>T\<close> and every limit \<open>L \<ge> 1\<close>,
  \<open>chunkText\<close> returns, and the text is its chunks with whitespace-only gaps put back
  before, between and after them; so the sequence of non-whitespace characters of the
  concatenated chunks is that of \<open>T\<close>.
\<close>

theorem chunkText_roundtrip:
  assumes "1 \<le> L"
  shows "\<exists>cs gaps. chunkText T L = Some cs \<and> length gaps = Suc (length cs) \<and>
           list_all (list_all is_ws) gaps \<and> weave gaps cs = T \<and>
           filter (\<lambda>c. \<not> is_ws c) (concat cs) = filter (\<lambda>c. \<not> is_ws c) T"
proof (cases "int (length T) \<le> L")
  case True
  have "rebuilds [[], []] [T] T" by (simp add: rebuilds_def all_ws_def)
  then show ?thesis using True rebuilds_filter
    apply (simp add: chunkText_def)
    apply (rule exI[of _ "[[], []]"]) by simp
next
  case False
  obtain cs gs where "chunkLoop T L [] = Some ([] @ cs)" "rebuilds gs cs T"
    using chunkLoop_rebuilds[OF assms] by blast
  then show ?thesis using False rebuilds_filter[of gs cs T]
    by (auto simp: chunkText_def rebuilds_def all_ws_def[abs_def])
qed

theorem chunkText_roundtrip_witness:
  "(1::int) \<le> 4 \<and>
   (\<exists>cs gaps. chunkText (js ''abcd. efgh'') 4 = Some cs \<and> length gaps = Suc (length cs) \<and>
      list_all (list_all is_ws) gaps \<and> weave gaps cs = js ''abcd. efgh'' \<and>
      filter (\<lambda>c. \<not> is_ws c) (concat cs) = filter (\<lambda>c. \<not> is_ws c) (js ''abcd. efgh''))"
  using chunkText_roundtrip[of 4 "js ''abcd. efgh''"] by simp




text \<open>
  Claim C10. The \<open>chunkText\<close> of the earlier worker and that of the current worker
  return the same list of chunks for every text and every \<open>maxLength\<close>, and do not
  return on the same inputs.
\<close>

theorem chunkText_versions_agree: "chunkText_early text maxLength = chunkText text maxLength"
  by (simp add: chunkText_early_def chunkText_def chunkLoop_early_eq)

section \<open>Retry, summarization and the Document Builder: lemmas\<close>

lemma retryLoop_last:
  "int attempt = maxRetries - 1 \<Longrightarrow>
   retryLoop fn maxRetries d attempt le s =
     (case fn s of (Inr v, s1) \<Rightarrow> (Inr v, s1) | (Inl e, s1) \<Rightarrow> (Inl (Error e), s1))"
  by (subst retryLoop.simps) (auto split: prod.splits sum.splits)

lemma retryLoop_step:
  "int attempt < maxRetries - 1 \<Longrightarrow>
   retryLoop fn maxRetries d attempt le s =
     (case fn s of
        (Inr v, s1) \<Rightarrow> (Inr v, s1)
      | (Inl e, s1) \<Rightarrow>
          if \<not> shouldRetry e then (Inl (Error e), s1)
          else retryLoop fn maxRetries d (attempt + 1) (Error e) (sleep (d * 2 ^ attempt) s1))"
  by (subst retryLoop.simps) (auto split: prod.splits sum.splits)

lemma retry3_unfold:
  "retryWithBackoff fn 3 d s =
     (case fn s of
        (Inr v, s1) \<Rightarrow> (Inr v, s1)
      | (Inl e1, s1) \<Rightarrow>
          if \<not> shouldRetry e1 then (Inl (Error e1), s1)
          else (case fn (sleep d s1) of
                  (Inr v, s2) \<Rightarrow> (Inr v, s2)
                | (Inl e2, s2) \<Rightarrow>
                    if \<not> shouldRetry e2 then (Inl (Error e2), s2)
                    else (case fn (sleep (d * 2) s2) of
                            (Inr v, s3) \<Rightarrow> (Inr v, s3)
                          | (Inl e3, s3) \<Rightarrow> (Inl (Error e3), s3))))"
proof -
  have 2: "retryLoop fn 3 d (Suc (Suc 0)) le s' =
      (case fn s' of (Inr v, s3) \<Rightarrow> (Inr v, s3) | (Inl e3, s3) \<Rightarrow> (Inl (Error e3), s3))" for le s'
    by (rule retryLoop_last) simp
  have 1: "retryLoop fn 3 d (Suc 0) le s' =
      (case fn s' of (Inr v, s1) \<Rightarrow> (Inr v, s1)
       | (Inl e, s1) \<Rightarrow> if \<not> shouldRetry e then (Inl (Error e), s1)
           else retryLoop fn 3 d (Suc (Suc 0)) (Error e) (sleep (d * 2) s1))" for le s'
    by (subst retryLoop_step) (auto split: prod.splits sum.splits)
  have 0: "retryLoop fn 3 d 0 le s' =
      (case fn s' of (Inr v, s1) \<Rightarrow> (Inr v, s1)
       | (Inl e, s1) \<Rightarrow> if \<not> shouldRetry e then (Inl (Error e), s1)
           else retryLoop fn 3 d (Suc 0) (Error e) (sleep d s1))" for le s'
    by (subst retryLoop_step) (auto split: prod.splits sum.splits)
  show ?thesis
    unfolding retryWithBackoff_def 0
    by (auto simp: 1 2 split: prod.splits sum.splits)
qed


lemma requestedModels_simps [simp]:
  "requestedModels [] = []"
  "requestedModels (e # evs) = requestedModel e @ requestedModels evs"
  "requestedModels (a @ b) = requestedModels a @ requestedModels b"
  by (simp_all add: requestedModels_def)

lemma trace_emit [simp]: "trace (emit e s) = trace s @ [e]"
  by (simp add: emit_def)

lemma trace_sleep [simp]: "trace (sleep ms s) = trace s @ [Slept ms]"
  by (simp add: sleep_def)

lemma tryModels_failed_trace:
  "tryModels w t ms le s = (Inl e, s') \<Longrightarrow>
   \<exists>evs. trace s' = trace s @ evs \<and> requestedModels evs = ms"
proof (induction ms arbitrary: le s)
  case Nil
  then show ?case by auto
next
  case (Cons m ms)
  let ?s1 = "emit (Requested m (prompt t)) (s\<lparr>requests := requests s + 1\<rparr>)"
  show ?case
  proof (cases "anthropic w (requests s) m (prompt t)")
    case (Answered c)
    then show ?thesis using Cons.prems by (simp add: Let_def)
  next
    case Unavailable
    then have "tryModels w t ms (Some (js ''Model not found: '' @ m)) (emit (Skipped m) ?s1) = (Inl e, s')"
      using Cons.prems by (simp add: Let_def)
    from Cons.IH[OF this] obtain evs where
      "trace s' = trace (emit (Skipped m) ?s1) @ evs" "requestedModels evs = ms" by blast
    then have "trace s' = trace s @ (Requested m (prompt t) # Skipped m # evs)" by simp
    then show ?thesis using \<open>requestedModels evs = ms\<close> by (intro exI[of _ "Requested m (prompt t) # Skipped m # evs"]) simp
  next
    case (RateLimited em)
    then have "tryModels w t ms (Some (js ''Rate limit (429): '' @ em))
                 (emit (ModelFailed m (js ''Rate limit (429): '' @ em)) ?s1) = (Inl e, s')"
      using Cons.prems by (simp add: Let_def)
    from Cons.IH[OF this] obtain evs where
      "trace s' = trace (emit (ModelFailed m (js ''Rate limit (429): '' @ em)) ?s1) @ evs" "requestedModels evs = ms" by blast
    then show ?thesis
      by (intro exI[of _ "Requested m (prompt t) # ModelFailed m (js ''Rate limit (429): '' @ em) # evs"]) simp
  next
    case (Refused em)
    then have "tryModels w t ms (Some (js ''API Error: '' @ em))
                 (emit (ModelFailed m (js ''API Error: '' @ em)) ?s1) = (Inl e, s')"
      using Cons.prems by (simp add: Let_def)
    from Cons.IH[OF this] obtain evs where
      "trace s' = trace (emit (ModelFailed m (js ''API Error: '' @ em)) ?s1) @ evs" "requestedModels evs = ms" by blast
    then show ?thesis
      by (intro exI[of _ "Requested m (prompt t) # ModelFailed m (js ''API Error: '' @ em) # evs"]) simp
  next
    case (Broken em)
    then have "tryModels w t ms (Some em) (emit (ModelFailed m em) ?s1) = (Inl e, s')"
      using Cons.prems by (simp add: Let_def)
    from Cons.IH[OF this] obtain evs where
      "trace s' = trace (emit (ModelFailed m em) ?s1) @ evs" "requestedModels evs = ms" by blast
    then show ?thesis
      by (intro exI[of _ "Requested m (prompt t) # ModelFailed m em # evs"]) simp
  qed
qed

lemma handleSummarization_failed_trace:
  assumes "handleSummarization w t s = (Inl e, s')"
  shows "\<exists>evs k. trace s' = trace s @ evs \<and> 1 \<le> k \<and> k \<le> 3 \<and>
           requestedModels evs = concat (replicate k modelsToTry)"
proof -
  let ?fn = "tryModels w t modelsToTry None"
  have r: "retryWithBackoff ?fn 3 1000 s = (Inl e, s')"
    using assms by (simp add: handleSummarization_def)
  obtain r1 s1 where f1: "?fn s = (r1, s1)" by (cases "?fn s")
  show ?thesis
  proof (cases r1)
    case (Inr v)
    then show ?thesis using r f1 by (simp add: retry3_unfold)
  next
    case (Inl e1)
    from tryModels_failed_trace[OF f1[unfolded Inl]] obtain evs1 where
      t1: "trace s1 = trace s @ evs1" "requestedModels evs1 = modelsToTry" by blast
    show ?thesis
    proof (cases "shouldRetry e1")
      case False
      then have "s' = s1" using r f1 Inl by (simp add: retry3_unfold)
      then show ?thesis using t1 by (intro exI[of _ evs1] exI[of _ 1]) simp
    next
      case sr1: True
      obtain r2 s2 where f2: "?fn (sleep 1000 s1) = (r2, s2)" by (cases "?fn (sleep 1000 s1)")
      show ?thesis
      proof (cases r2)
        case (Inr v)
        then show ?thesis using r f1 Inl sr1 f2 by (simp add: retry3_unfold)
      next
        case e2: (Inl e2)
        from tryModels_failed_trace[OF f2[unfolded e2]] obtain evs2 where
          t2: "trace s2 = trace (sleep 1000 s1) @ evs2" "requestedModels evs2 = modelsToTry" by blast
        show ?thesis
        proof (cases "shouldRetry e2")
          case False
          then have "s' = s2" using r f1 Inl sr1 f2 e2 by (simp add: retry3_unfold)
          then show ?thesis using t1 t2
            by (intro exI[of _ "evs1 @ Slept 1000 # evs2"] exI[of _ 2]) (simp add: numeral_2_eq_2)
        next
          case sr2: True
          obtain r3 s3 where f3: "?fn (sleep 2000 s2) = (r3, s3)" by (cases "?fn (sleep 2000 s2)")
          show ?thesis
          proof (cases r3)
            case (Inr v)
            then show ?thesis using r f1 Inl sr1 f2 e2 sr2 f3 by (simp add: retry3_unfold)
          next
            case e3: (Inl e3)
            from tryModels_failed_trace[OF f3[unfolded e3]] obtain evs3 where
              t3: "trace s3 = trace (sleep 2000 s2) @ evs3" "requestedModels evs3 = modelsToTry" by blast
            have "s' = s3" using r f1 Inl sr1 f2 e2 sr2 f3 e3 by (simp add: retry3_unfold)
            then show ?thesis using t1 t2 t3
              by (intro exI[of _ "evs1 @ Slept 1000 # evs2 @ Slept 2000 # evs3"] exI[of _ 3])
                 (simp add: numeral_3_eq_3)
          qed
        qed
      qed
    qed
  qed
qed

lemma modelsToTry_split:
  "modelsToTry = js ''claude-3-5-sonnet-20241022'' # js ''claude-3-5-sonnet-20240620'' #
     js ''claude-3-opus-20240229'' # [js ''claude-3-sonnet-20240229'', js ''claude-3-haiku-20240307'']"
  by (simp add: modelsToTry_def)


lemma requestedPrompts_simps [simp]:
  "requestedPrompts [] = []"
  "requestedPrompts (e # evs) = requestedPrompt e @ requestedPrompts evs"
  "requestedPrompts (a @ b) = requestedPrompts a @ requestedPrompts b"
  by (simp_all add: requestedPrompts_def)

lemma notionPatches_simps [simp]:
  "notionPatches [] = []"
  "notionPatches (e # evs) = notionPatch e @ notionPatches evs"
  "notionPatches (a @ b) = notionPatches a @ notionPatches b"
  by (simp_all add: notionPatches_def)

lemma summaryErrors_simps [simp]:
  "summaryErrors [] = []"
  "summaryErrors (e # evs) = summaryError e @ summaryErrors evs"
  "summaryErrors (a @ b) = summaryErrors a @ summaryErrors b"
  by (simp_all add: summaryErrors_def)

lemma summarizing_refl: "summarizing p 0 s s"
  by (simp add: summarizing_def)

lemma summarizing_trans:
  "summarizing p j s s1 \<Longrightarrow> summarizing p k s1 s2 \<Longrightarrow> summarizing p (j + k) s s2"
  unfolding summarizing_def
  by (elim conjE exE) (auto simp: replicate_add)

lemma summarizing_emit:
  "requestedPrompt e = [] \<Longrightarrow> notionPatch e = [] \<Longrightarrow> summaryError e = [] \<Longrightarrow>
   summarizing p 0 s (emit e s)"
  by (simp add: summarizing_def emit_def)

lemma summarizing_sleep: "summarizing p 0 s (sleep ms s)"
  by (simp add: sleep_def summarizing_emit)

lemma summarizing_request:
  "summarizing p 1 s (emit (Requested m p) (s\<lparr>requests := requests s + 1\<rparr>))"
  by (simp add: summarizing_def emit_def)

lemma tryModels_summarizing:
  "tryModels w t ms le s = (r, s') \<Longrightarrow> \<exists>k. summarizing (prompt t) k s s' \<and> (ms \<noteq> [] \<longrightarrow> 1 \<le> k)"
proof (induction ms arbitrary: le s)
  case Nil
  then show ?case using summarizing_refl by auto
next
  case (Cons m ms)
  let ?s1 = "emit (Requested m (prompt t)) (s\<lparr>requests := requests s + 1\<rparr>)"
  have s1: "summarizing (prompt t) 1 s ?s1" by (rule summarizing_request)
  have step: "\<exists>k. summarizing (prompt t) k s s' \<and> 1 \<le> k"
    if "tryModels w t ms le' (emit e ?s1) = (r, s')" "requestedPrompt e = []" "notionPatch e = []"
      "summaryError e = []" for le' e
  proof -
    from Cons.IH[OF that(1)] obtain k where "summarizing (prompt t) k (emit e ?s1) s'" by blast
    with summarizing_trans[OF summarizing_emit[OF that(2,3,4), of "prompt t" ?s1]]
    have "summarizing (prompt t) k ?s1 s'" by fastforce
    with summarizing_trans[OF s1] have "summarizing (prompt t) (1 + k) s s'" by blast
    then show ?thesis by (intro exI[of _ "1 + k"]) simp
  qed
  show ?case
  proof (cases "anthropic w (requests s) m (prompt t)")
    case (Answered c)
    then have "s' = ?s1" using Cons.prems by (auto simp: Let_def)
    then show ?thesis using s1 by (intro exI[of _ 1]) simp
  next
    case Unavailable
    then show ?thesis using Cons.prems step[of _ "Skipped m"] by (simp add: Let_def)
  next
    case (RateLimited em)
    then show ?thesis using Cons.prems step[of _ "ModelFailed m (js ''Rate limit (429): '' @ em)"] by (simp add: Let_def)
  next
    case (Refused em)
    then show ?thesis using Cons.prems step[of _ "ModelFailed m (js ''API Error: '' @ em)"] by (simp add: Let_def)
  next
    case (Broken em)
    then show ?thesis using Cons.prems step[of _ "ModelFailed m em"] by (simp add: Let_def)
  qed
qed

lemma retryLoop_summarizing:
  assumes fn: "\<And>s r s'. fn s = (r, s') \<Longrightarrow> \<exists>k. summarizing p k s s' \<and> 1 \<le> k"
  shows "int attempt < maxRetries \<Longrightarrow> retryLoop fn maxRetries d attempt le s = (r, s') \<Longrightarrow>
         \<exists>k. summarizing p k s s' \<and> 1 \<le> k"
proof (induction "nat (maxRetries - int attempt)" arbitrary: attempt le s rule: less_induct)
  case less
  obtain r1 s1 where f: "fn s = (r1, s1)" by (cases "fn s")
  from fn[OF f] obtain k1 where k1: "summarizing p k1 s s1" "1 \<le> k1" by blast
  show ?case
  proof (cases r1)
    case (Inr v)
    then have "s' = s1" using less.prems f by (subst (asm) retryLoop.simps) simp
    then show ?thesis using k1 by blast
  next
    case (Inl e)
    show ?thesis
    proof (cases "\<not> shouldRetry e \<or> int attempt = maxRetries - 1")
      case True
      then have "s' = s1" using less.prems f Inl by (subst (asm) retryLoop.simps) auto
      then show ?thesis using k1 by blast
    next
      case False
      then have rec: "retryLoop fn maxRetries d (attempt + 1) (Error e) (sleep (d * 2 ^ attempt) s1) = (r, s')"
        using less.prems f Inl by (subst (asm) retryLoop.simps) auto
      have lt: "int (attempt + 1) < maxRetries" using False less.prems(1) by auto
      have "nat (maxRetries - int (attempt + 1)) < nat (maxRetries - int attempt)"
        using less.prems(1) by auto
      from less.hyps[OF this lt rec]
      obtain k2 where k2: "summarizing p k2 (sleep (d * 2 ^ attempt) s1) s'" by auto
      have "summarizing p (0 + k2) s1 s'"
        using summarizing_trans[OF summarizing_sleep k2] .
      then have "summarizing p (k1 + (0 + k2)) s s'"
        using summarizing_trans[OF k1(1)] by blast
      then show ?thesis using k1(2) by (intro exI[of _ "k1 + (0 + k2)"]) simp
    qed
  qed
qed

lemma handleSummarization_summarizing:
  "handleSummarization w t s = (r, s') \<Longrightarrow> \<exists>k. summarizing (prompt t) k s s' \<and> 1 \<le> k"
  unfolding handleSummarization_def retryWithBackoff_def
  by (rule retryLoop_summarizing[where fn = "tryModels w t modelsToTry None"])
     (use tryModels_summarizing in \<open>fastforce simp: modelsToTry_def\<close>, simp_all)

lemma tryModels_Inr:
  "tryModels w t ms le s = (Inr summary, s') \<Longrightarrow>
   (\<exists>k model. isAnswered (anthropic w k model (prompt t))) \<and>
   summaryTurnNumber summary = turnNumber t \<and> sourceUser summary = user t \<and>
   sourceAssistant summary = assistant t"
proof (induction ms arbitrary: le s)
  case Nil
  then show ?case by simp
next
  case (Cons m ms)
  show ?case
  proof (cases "anthropic w (requests s) m (prompt t)")
    case (Answered c)
    then have "isAnswered (anthropic w (requests s) m (prompt t))" by simp
    then have "\<exists>k model. isAnswered (anthropic w k model (prompt t))" by blast
    moreover have "summaryTurnNumber summary = turnNumber t \<and> sourceUser summary = user t \<and>
       sourceAssistant summary = assistant t" using Cons.prems Answered by (auto simp: Let_def)
    ultimately show ?thesis by blast
  qed (use Cons in \<open>auto simp: Let_def\<close>)
qed

lemma retryLoop_Inr:
  "retryLoop fn maxRetries d attempt le s = (Inr v, s') \<Longrightarrow> \<exists>s0 s1. fn s0 = (Inr v, s1)"
proof (induction "nat (maxRetries - int attempt)" arbitrary: attempt le s rule: less_induct)
  case less
  show ?case
  proof (cases "int attempt < maxRetries")
    case False
    then show ?thesis using less.prems by (subst (asm) retryLoop.simps) simp
  next
    case lt: True
    obtain r1 s1 where f: "fn s = (r1, s1)" by (cases "fn s")
    show ?thesis
    proof (cases r1)
      case (Inr u)
      then have "u = v" using less.prems f lt by (subst (asm) retryLoop.simps) simp
      then show ?thesis using f Inr by blast
    next
      case (Inl e)
      show ?thesis
      proof (cases "\<not> shouldRetry e \<or> int attempt = maxRetries - 1")
        case True
        then show ?thesis using less.prems f Inl lt by (subst (asm) retryLoop.simps) auto
      next
        case False
        then have rec: "retryLoop fn maxRetries d (attempt + 1) (Error e) (sleep (d * 2 ^ attempt) s1) = (Inr v, s')"
          using less.prems f Inl lt by (subst (asm) retryLoop.simps) auto
        have "nat (maxRetries - int (attempt + 1)) < nat (maxRetries - int attempt)"
          using lt by auto
        from less.hyps[OF this rec] show ?thesis .
      qed
    qed
  qed
qed

lemma handleSummarization_Inr:
  assumes "handleSummarization w t s = (Inr summary, s')"
  shows "(\<exists>k model. isAnswered (anthropic w k model (prompt t))) \<and>
         summaryTurnNumber summary = turnNumber t \<and> sourceUser summary = user t \<and>
         sourceAssistant summary = assistant t"
proof -
  from assms obtain s0 s1 where "tryModels w t modelsToTry None s0 = (Inr summary, s1)"
    unfolding handleSummarization_def retryWithBackoff_def
    using retryLoop_Inr[of "tryModels w t modelsToTry None" 3 1000 0 Undefined s summary s'] by blast
  then show ?thesis using tryModels_Inr by blast
qed

lemma failedSummary_fields [simp]:
  "summaryTurnNumber (failedSummary t) = turnNumber t"
  "sourceUser (failedSummary t) = user t"
  "sourceAssistant (failedSummary t) = assistant t"
  by (simp_all add: failedSummary_def)

lemma summarizeTurns_Cons:
  assumes "handleSummarization w t
             (updateProgress (js ''summarizing'') i c
                (js ''Processing turn '' @ numToString (st + i + 1) @ js '' of '' @
                 numToString len @ js ''...'') s) = (r, s2)"
    and "s3 = (case r of Inr summary \<Rightarrow> s2 | Inl error \<Rightarrow> emit (SummaryError (st + i + 1) error) s2)"
    and "summarizeTurns w ts (i + 1) c st len (if int i < int c - 1 then sleep 800 s3 else s3) = (rest, s5)"
  shows "summarizeTurns w (t # ts) i c st len s =
           ((case r of Inr summary \<Rightarrow> summary | Inl error \<Rightarrow> failedSummary t) # rest, s5)"
  using assms by (cases r; cases "int i < int c - 1") (simp_all add: Let_def)

lemma summarizeTurns_fields:
  "summarizeTurns w ts i c st len s = (summaries, s') \<Longrightarrow>
   map summaryTurnNumber summaries = map turnNumber ts \<and>
   map sourceUser summaries = map user ts \<and>
   map sourceAssistant summaries = map assistant ts"
proof (induction ts arbitrary: i s summaries s')
  case Nil
  then show ?case by simp
next
  case (Cons t ts)
  let ?s1 = "updateProgress (js ''summarizing'') i c
                 (js ''Processing turn '' @ numToString (st + i + 1) @ js '' of '' @
                  numToString len @ js ''...'') s"
  obtain r s2 where h: "handleSummarization w t ?s1 = (r, s2)" by (cases "handleSummarization w t ?s1")
  define s3 where "s3 = (case r of Inr summary \<Rightarrow> s2 | Inl error \<Rightarrow> emit (SummaryError (st + i + 1) error) s2)"
  let ?s4 = "if int i < int c - 1 then sleep 800 s3 else s3"
  obtain rest s5 where rec: "summarizeTurns w ts (i + 1) c st len ?s4 = (rest, s5)"
    by (cases "summarizeTurns w ts (i + 1) c st len ?s4")
  have sums: "summaries = (case r of Inr summary \<Rightarrow> summary | Inl error \<Rightarrow> failedSummary t) # rest"
    using Cons.prems summarizeTurns_Cons[OF h s3_def rec] by simp
  have hd: "summaryTurnNumber (case r of Inr summary \<Rightarrow> summary | Inl error \<Rightarrow> failedSummary t) = turnNumber t \<and>
            sourceUser (case r of Inr summary \<Rightarrow> summary | Inl error \<Rightarrow> failedSummary t) = user t \<and>
            sourceAssistant (case r of Inr summary \<Rightarrow> summary | Inl error \<Rightarrow> failedSummary t) = assistant t"
    using handleSummarization_Inr[of w t ?s1 _ s2] h by (cases r) auto
  show ?case using Cons.IH[OF rec] sums hd by simp
qed

lemma summarizeTurns_length:
  "length (fst (summarizeTurns w ts i c st len s)) = length ts"
proof -
  obtain summaries s' where r: "summarizeTurns w ts i c st len s = (summaries, s')"
    by (cases "summarizeTurns w ts i c st len s")
  from summarizeTurns_fields[OF r] have "length (map sourceUser summaries) = length (map user ts)"
    by simp
  then show ?thesis using r by simp
qed

lemma summarizeTurns_sentinel:
  "j < length ts \<Longrightarrow> \<forall>k m. \<not> isAnswered (anthropic w k m (prompt (ts ! j))) \<Longrightarrow>
   fst (summarizeTurns w ts i c st len s) ! j = failedSummary (ts ! j)"
proof (induction ts arbitrary: i s j)
  case Nil
  then show ?case by simp
next
  case (Cons t ts)
  let ?s1 = "updateProgress (js ''summarizing'') i c
                 (js ''Processing turn '' @ numToString (st + i + 1) @ js '' of '' @
                  numToString len @ js ''...'') s"
  obtain r s2 where h: "handleSummarization w t ?s1 = (r, s2)" by (cases "handleSummarization w t ?s1")
  define s3 where "s3 = (case r of Inr summary \<Rightarrow> s2 | Inl error \<Rightarrow> emit (SummaryError (st + i + 1) error) s2)"
  let ?s4 = "if int i < int c - 1 then sleep 800 s3 else s3"
  obtain rest s5 where rec: "summarizeTurns w ts (i + 1) c st len ?s4 = (rest, s5)"
    by (cases "summarizeTurns w ts (i + 1) c st len ?s4")
  have sums: "fst (summarizeTurns w (t # ts) i c st len s) =
                (case r of Inr summary \<Rightarrow> summary | Inl error \<Rightarrow> failedSummary t) # rest"
    using summarizeTurns_Cons[OF h s3_def rec] by simp
  show ?case
  proof (cases j)
    case 0
    then have "\<forall>k m. \<not> isAnswered (anthropic w k m (prompt t))" using Cons.prems by simp
    then have "\<exists>e. r = Inl e" using handleSummarization_Inr[of w t ?s1 _ s2] h by (cases r) auto
    then show ?thesis using sums 0 by auto
  next
    case (Suc j')
    then have "fst (summarizeTurns w ts (i + 1) c st len ?s4) ! j' = failedSummary (ts ! j')"
      using Cons.prems by (intro Cons.IH) auto
    then show ?thesis using sums Suc rec by simp
  qed
qed

lemma updateProgress_frame [simp]:
  "trace (updateProgress a b c d s) = trace s"
  "exportHistory (updateProgress a b c d s) = exportHistory s"
  "notionRequests (updateProgress a b c d s) = notionRequests s"
  "requests (updateProgress a b c d s) = requests s"
  by (simp_all add: updateProgress_def)

lemma summarizeTurns_trace:
  "summarizeTurns w ts i c st len s = (summaries, s') \<Longrightarrow>
   \<exists>counts evs. trace s' = trace s @ evs \<and> length counts = length ts \<and> list_all (\<lambda>k. 1 \<le> k) counts \<and>
      requestedPrompts evs = promptsOf counts ts \<and> notionPatches evs = [] \<and>
      exportHistory s' = exportHistory s \<and> notionRequests s' = notionRequests s \<and>
      (\<forall>p\<in>set (summaryErrors evs). st + i < p \<and> p \<le> st + i + length ts) \<and>
      (\<forall>j<length ts. st + i + j + 1 \<in> set (summaryErrors evs) \<longrightarrow> summaries ! j = failedSummary (ts ! j))"
proof (induction ts arbitrary: i s summaries s')
  case Nil
  then show ?case by (auto simp: promptsOf_def)
next
  case (Cons t ts)
  let ?s1 = "updateProgress (js ''summarizing'') i c
                 (js ''Processing turn '' @ numToString (st + i + 1) @ js '' of '' @
                  numToString len @ js ''...'') s"
  obtain r s2 where h: "handleSummarization w t ?s1 = (r, s2)" by (cases "handleSummarization w t ?s1")
  define s3 where "s3 = (case r of Inr summary \<Rightarrow> s2 | Inl error \<Rightarrow> emit (SummaryError (st + i + 1) error) s2)"
  define s4 where "s4 = (if int i < int c - 1 then sleep 800 s3 else s3)"
  obtain rest s5 where rec: "summarizeTurns w ts (i + 1) c st len s4 = (rest, s5)"
    by (cases "summarizeTurns w ts (i + 1) c st len s4")
  define first where "first = (case r of Inr summary \<Rightarrow> summary | Inl error \<Rightarrow> failedSummary t)"
  have res: "summaries = first # rest" "s' = s5"
    using Cons.prems summarizeTurns_Cons[OF h s3_def rec[unfolded s4_def]] by (simp_all add: first_def)
  from handleSummarization_summarizing[OF h] obtain k where k: "summarizing (prompt t) k ?s1 s2" "1 \<le> k" by blast
  then obtain evs0 where e0: "trace s2 = trace s @ evs0" "requestedPrompts evs0 = replicate k (prompt t)"
      "notionPatches evs0 = []" "summaryErrors evs0 = []"
      "exportHistory s2 = exportHistory s" "notionRequests s2 = notionRequests s"
    unfolding summarizing_def by auto
  have "\<exists>evs1. trace s4 = trace s2 @ evs1 \<and> requestedPrompts evs1 = [] \<and> notionPatches evs1 = [] \<and>
          exportHistory s4 = exportHistory s2 \<and> notionRequests s4 = notionRequests s2 \<and>
          set (summaryErrors evs1) \<subseteq> {st + i + 1} \<and>
          (st + i + 1 \<in> set (summaryErrors evs1) \<longrightarrow> first = failedSummary t)"
    by (cases r) (auto simp: s4_def s3_def first_def emit_def sleep_def)
  then obtain evs1 where e1: "trace s4 = trace s2 @ evs1" "requestedPrompts evs1 = []" "notionPatches evs1 = []"
      "exportHistory s4 = exportHistory s2" "notionRequests s4 = notionRequests s2"
      "set (summaryErrors evs1) \<subseteq> {st + i + 1}"
      "st + i + 1 \<in> set (summaryErrors evs1) \<longrightarrow> first = failedSummary t" by blast
  from Cons.IH[OF rec] obtain counts evs2 where
    e2: "trace s5 = trace s4 @ evs2" "length counts = length ts" "list_all (\<lambda>k. 1 \<le> k) counts"
      "requestedPrompts evs2 = promptsOf counts ts" "notionPatches evs2 = []"
      "exportHistory s5 = exportHistory s4" "notionRequests s5 = notionRequests s4"
      "\<forall>p\<in>set (summaryErrors evs2). st + (i + 1) < p \<and> p \<le> st + (i + 1) + length ts"
      "\<forall>j<length ts. st + (i + 1) + j + 1 \<in> set (summaryErrors evs2) \<longrightarrow> rest ! j = failedSummary (ts ! j)"
    by blast
  let ?evs = "evs0 @ evs1 @ evs2"
  have tr: "trace s' = trace s @ ?evs" using e0 e1 e2 res by simp
  have errs: "summaryErrors ?evs = summaryErrors evs1 @ summaryErrors evs2" using e0 by simp
  have range: "\<forall>p\<in>set (summaryErrors ?evs). st + i < p \<and> p \<le> st + i + length (t # ts)"
    unfolding errs using e1(6) e2(8) by auto
  have at: "summaries ! j = failedSummary ((t # ts) ! j)"
    if "j < length (t # ts)" "st + i + j + 1 \<in> set (summaryErrors ?evs)" for j
  proof (cases j)
    case 0
    then have "st + i + 1 \<in> set (summaryErrors evs1)" using that(2) e2(8) unfolding errs by auto
    then show ?thesis using e1(7) res 0 by simp
  next
    case (Suc j')
    then have "st + i + j + 1 \<notin> set (summaryErrors evs1)" using e1(6) by auto
    then have "st + (i + 1) + j' + 1 \<in> set (summaryErrors evs2)" using that(2) Suc unfolding errs by simp
    then show ?thesis using e2(9) that(1) Suc res by simp
  qed
  show ?case
    apply (rule exI[of _ "k # counts"])
    apply (rule exI[of _ ?evs])
    using tr e0 e1 e2 k(2) range at res(2) by (simp add: promptsOf_def)
qed

lemma chunkText_returns: "1 \<le> L \<Longrightarrow> \<exists>cs. chunkText T L = Some cs"
  using chunkLoop_rebuilds[of L T "[]"] by (auto simp: chunkText_def)

lemma sourceTextChildren_returns: "1 \<le> L \<Longrightarrow> \<exists>blocks. sourceTextChildren summary L = Some blocks"
  using chunkText_returns[of L "sourceUser summary"] chunkText_returns[of L "sourceAssistant summary"]
  by (auto simp: sourceTextChildren_def)

lemma building_refl: "building summaries L s s"
  by (simp add: building_def)

lemma building_trans: "building summaries L s s1 \<Longrightarrow> building summaries L s1 s2 \<Longrightarrow> building summaries L s s2"
  unfolding building_def by (elim conjE exE) auto

lemma building_mono: "building A L s s' \<Longrightarrow> set A \<subseteq> set B \<Longrightarrow> building B L s s'"
  unfolding building_def list_all_iff by (elim conjE exE) fastforce

lemma building_get: "building summaries L s (notionRequest (NotionGet blockId) s)"
  by (simp add: building_def notionRequest_def emit_def)

lemma building_sleep: "building summaries L s (sleep ms s)"
  by (simp add: building_def sleep_def emit_def)

lemma building_patch:
  "sourceTextChildren summary L = Some blocks \<Longrightarrow> summary \<in> set summaries \<Longrightarrow>
   building summaries L s (notionRequest (NotionPatch blockId blocks) s)"
  by (auto simp: building_def notionRequest_def emit_def)

lemma populateTurn_building:
  assumes "populateTurn w L blockId summary s = Some (r, s')"
  shows "building (case summary of Some x \<Rightarrow> [x] | None \<Rightarrow> []) L s s'"
proof -
  let ?sums = "case summary of Some x \<Rightarrow> [x] | None \<Rightarrow> []"
  let ?s1 = "notionRequest (NotionGet blockId) s"
  have g: "building ?sums L s ?s1" by (rule building_get)
  show ?thesis
  proof (cases "notion w (notionRequests s)")
    case (NotionOk results)
    show ?thesis
    proof (cases "1 < length results \<and> snd (results ! 1) = js ''toggle''")
      case False
      then have "s' = ?s1" using assms NotionOk by (auto simp: populateTurn_def Let_def)
      then show ?thesis using g by simp
    next
      case True
      show ?thesis
      proof (cases summary)
        case None
        then have "s' = ?s1" using assms NotionOk True by (auto simp: populateTurn_def Let_def)
        then show ?thesis using g by simp
      next
        case (Some x)
        then obtain blocks where b: "sourceTextChildren x L = Some blocks"
          using assms NotionOk True by (cases "sourceTextChildren x L") (auto simp: populateTurn_def Let_def)
        let ?s2 = "notionRequest (NotionPatch (fst (results ! 1)) blocks) ?s1"
        have p: "building ?sums L ?s1 ?s2" using b Some by (intro building_patch) auto
        have "s' = ?s2 \<or> s' = sleep 200 ?s2"
          using assms NotionOk True Some b
          by (cases "notion w (notionRequests ?s1)") (auto simp: populateTurn_def Let_def)
        then show ?thesis using building_trans[OF g p] building_trans[OF building_trans[OF g p] building_sleep]
          by auto
      qed
    qed
  qed (use assms g in \<open>auto simp: populateTurn_def Let_def\<close>)
qed

lemma populateTurn_returns:
  "1 \<le> L \<Longrightarrow> \<exists>r. populateTurn w L blockId summary s = Some r"
proof -
  assume L: "1 \<le> L"
  have inner: "\<exists>r. (case sourceTextChildren x L of None \<Rightarrow> None
               | Some children \<Rightarrow>
                   (let s2 = notionRequest (NotionPatch b children) s1
                    in case notion w (notionRequests s1) of
                         NotionDown error \<Rightarrow> Some (Inl error, s2)
                       | _ \<Rightarrow> Some (Inr (), sleep 200 s2))) = Some r" for x b s1
    using sourceTextChildren_returns[OF L, of x]
    by (auto simp: Let_def split: notion_reply.splits)
  show ?thesis
  proof (cases "notion w (notionRequests s)")
    case (NotionOk results)
    then show ?thesis using inner
      by (cases summary) (auto simp: populateTurn_def Let_def)
  qed (auto simp: populateTurn_def Let_def)
qed

lemma populate_building:
  "populate w L pairs s = Some (r, s') \<Longrightarrow> \<forall>x. Some x \<in> snd ` set pairs \<longrightarrow> x \<in> set summaries \<Longrightarrow>
   building summaries L s s'"
proof (induction pairs arbitrary: s)
  case Nil
  then show ?case by (simp add: building_refl)
next
  case (Cons p pairs)
  obtain blockId summary where p: "p = (blockId, summary)" by (cases p)
  obtain r1 s1 where t: "populateTurn w L blockId summary s = Some (r1, s1)"
    using Cons.prems(1) p by (cases "populateTurn w L blockId summary s") auto
  have "set (case summary of Some x \<Rightarrow> [x] | None \<Rightarrow> []) \<subseteq> set summaries"
    using Cons.prems(2) p by (cases summary) auto
  with populateTurn_building[OF t] have b1: "building summaries L s s1" by (rule building_mono)
  show ?case
  proof (cases r1)
    case (Inl e)
    then have "s' = s1" using Cons.prems(1) p t by simp
    then show ?thesis using b1 by simp
  next
    case (Inr u)
    then have "populate w L pairs s1 = Some (r, s')" using Cons.prems(1) p t by simp
    then have "building summaries L s1 s'" using Cons.prems(2) by (intro Cons.IH) auto
    then show ?thesis using building_trans[OF b1] by blast
  qed
qed

lemma populate_returns: "1 \<le> L \<Longrightarrow> \<exists>r. populate w L pairs s = Some r"
proof (induction pairs arbitrary: s)
  case Nil
  then show ?case by simp
next
  case (Cons p pairs)
  obtain blockId summary where p: "p = (blockId, summary)" by (cases p)
  obtain r1 s1 where t: "populateTurn w L blockId summary s = Some (r1, s1)"
    using populateTurn_returns[OF Cons.prems, of w blockId summary s] by auto
  show ?case using Cons.IH[OF Cons.prems, of s1] p t by (cases r1) auto
qed

lemma appendNotionToggles_building:
  assumes "appendNotionToggles w summaries parentId L s = Some (r, s')"
  shows "building summaries L (notionRequest (NotionPatch parentId (map turnToggle summaries)) s) s'"
proof (cases "notion w (notionRequests s)")
  case (NotionOk results1)
  let ?s1 = "notionRequest (NotionPatch parentId (map turnToggle summaries)) s"
  have "populate w L (zip (map fst results1) (map Some summaries @ replicate (length results1) None)) ?s1 = Some (r, s')"
    using assms NotionOk by (simp add: appendNotionToggles_def Let_def)
  moreover have "\<forall>x. Some x \<in> snd ` set (zip (map fst results1) (map Some summaries @ replicate (length results1) None))
          \<longrightarrow> x \<in> set summaries"
    by (auto dest!: set_zip_rightD)
  ultimately show ?thesis by (rule populate_building)
qed (use assms in \<open>auto simp: appendNotionToggles_def Let_def building_refl\<close>)

lemma appendNotionToggles_returns:
  "1 \<le> L \<Longrightarrow> \<exists>r. appendNotionToggles w summaries parentId L s = Some r"
  using populate_returns[of L w]
  by (auto simp: appendNotionToggles_def Let_def split: notion_reply.splits)

lemma createNotionToggles_building:
  assumes "createNotionToggles w summaries page title url L s = Some (r, s')"
  shows "building summaries L (notionRequest (NotionPatch page [masterToggle w summaries title url]) s) s'"
proof (cases "notion w (notionRequests s)")
  case (NotionOk results1)
  let ?s1 = "notionRequest (NotionPatch page [masterToggle w summaries title url]) s"
  show ?thesis
  proof (cases results1)
    case Nil
    then show ?thesis using assms NotionOk by (auto simp: createNotionToggles_def Let_def building_refl)
  next
    case (Cons first others)
    obtain masterBlockId ty where f: "first = (masterBlockId, ty)" by (cases first)
    let ?s2 = "notionRequest (NotionGet masterBlockId) ?s1"
    have g: "building summaries L ?s1 ?s2" by (rule building_get)
    show ?thesis
    proof (cases "notion w (notionRequests ?s1)")
      case inner: (NotionOk masterChildren)
      let ?pairs = "zip (map fst (tl masterChildren)) (map Some summaries)"
      obtain r3 s3 where pop: "populate w L ?pairs ?s2 = Some (r3, s3)"
        using assms NotionOk Cons f inner
        by (cases "populate w L ?pairs ?s2") (auto simp: createNotionToggles_def Let_def)
      have "\<forall>x. Some x \<in> snd ` set ?pairs \<longrightarrow> x \<in> set summaries" by (auto dest!: set_zip_rightD)
      with pop have "building summaries L ?s2 s3" by (rule populate_building)
      moreover have "s' = s3" using assms NotionOk Cons f inner pop
        by (cases r3) (auto simp: createNotionToggles_def Let_def)
      ultimately show ?thesis using building_trans[OF g] by blast
    qed (use assms NotionOk Cons f g in \<open>auto simp: createNotionToggles_def Let_def\<close>)
  qed
qed (use assms in \<open>auto simp: createNotionToggles_def Let_def building_refl\<close>)

lemma createNotionToggles_returns:
  "1 \<le> L \<Longrightarrow> \<exists>r. createNotionToggles w summaries page title url L s = Some r"
proof -
  assume L: "1 \<le> L"
  have "\<exists>r. (case populate w L pairs s2 of None \<Rightarrow> None
          | Some (Inl error, s3) \<Rightarrow> Some (Inl error, s3)
          | Some (Inr u, s3) \<Rightarrow> Some (Inr (masterBlockId :: jsstring), s3)) = Some r" for pairs s2 masterBlockId
    using populate_returns[OF L, of w pairs s2] by (auto split: sum.splits)
  then show ?thesis
    by (auto simp: createNotionToggles_def Let_def split: notion_reply.splits list.splits)
qed

lemma exportFailed_state:
  "exportFailed e s = (r, s') \<Longrightarrow>
   r = Inl e \<and> trace s' = trace s @ [Notified (js ''Export Failed'') e] \<and>
   exportHistory s' = exportHistory s \<and> requests s' = requests s \<and> notionRequests s' = notionRequests s \<and>
   exportProgress s' = Some \<lparr>status = js ''error'', current = 0, total = 0, message = e\<rparr>"
  by (auto simp: exportFailed_def emit_def updateProgress_def)

lemma handleFullExport_early:
  assumes "exportMode d = js ''update''" "existingExportData d = Some existing"
    and "length (turns d) \<le> turnCount existing"
  shows "handleFullExport w d s = Some (exportFailed (js ''No new turns to export'') s)"
  using assms by (simp add: handleFullExport_def updateFrom_def)

lemma exportSlice_main:
  assumes sums: "summarizeTurns w turnsToProcess 0 (length turnsToProcess) startIndex (length (turns d))
             (updateProgress (js ''starting'') 0 (length turnsToProcess) (js ''Starting export...'') s)
           = (summaries, s2)"
  shows "\<exists>outcome s4 s' title body.
           exportSlice w d turnsToProcess startIndex s = Some (outcome, s') \<and>
           building summaries 2000
             (notionRequest
                (case updateFrom d of
                   Some existing \<Rightarrow> NotionPatch (parentBlockId existing) (map turnToggle summaries)
                 | None \<Rightarrow> NotionPatch (pageId d) [masterToggle w summaries (chatTitle d) (conversationUrl d)])
                (updateProgress (js ''creating'') (length turnsToProcess) (length turnsToProcess)
                   (js ''Creating Notion blocks...'') s2)) s4 \<and>
           trace s' = trace s4 @ [Notified title body] \<and>
           requests s' = requests s4 \<and> notionRequests s' = notionRequests s4 \<and>
           (case outcome of
              Inl e \<Rightarrow> exportHistory s' = exportHistory s4 \<and>
                       exportProgress s' = Some \<lparr>status = js ''error'', current = 0, total = 0, message = e\<rparr>
            | Inr u \<Rightarrow> exportProgress s' = None \<and>
                       (\<exists>parent. exportHistory s' = (exportHistory s4)(conversationUrl d \<mapsto>
                          \<lparr>recordUrl = conversationUrl d, conversationTitle = chatTitle d,
                           exportedAt = toISOString w, turnCount = length (turns d),
                           notionPageId = pageId d, parentBlockId = parent\<rparr>)))"
proof -
  let ?s3 = "updateProgress (js ''creating'') (length turnsToProcess) (length turnsToProcess)
                   (js ''Creating Notion blocks...'') s2"
  let ?target = "case updateFrom d of
                   Some existing \<Rightarrow> NotionPatch (parentBlockId existing) (map turnToggle summaries)
                 | None \<Rightarrow> NotionPatch (pageId d) [masterToggle w summaries (chatTitle d) (conversationUrl d)]"
  let ?written = "case updateFrom d of
               Some existing \<Rightarrow>
                 (case appendNotionToggles w summaries (parentBlockId existing) 2000 ?s3 of
                    None \<Rightarrow> None
                  | Some (Inl error, s4) \<Rightarrow> Some (Inl error, s4)
                  | Some (Inr u, s4) \<Rightarrow> Some (Inr (parentBlockId existing), s4))
             | None \<Rightarrow>
                 createNotionToggles w summaries (pageId d) (chatTitle d) (conversationUrl d) 2000 ?s3"
  have "\<exists>r s4. ?written = Some (r, s4) \<and> building summaries 2000 (notionRequest ?target ?s3) s4"
  proof (cases "updateFrom d")
    case None
    obtain r s4 where a: "createNotionToggles w summaries (pageId d) (chatTitle d) (conversationUrl d) 2000 ?s3 = Some (r, s4)"
      using createNotionToggles_returns[of 2000 w summaries "pageId d" "chatTitle d" "conversationUrl d" ?s3] by auto
    then show ?thesis using createNotionToggles_building[OF a] None by simp
  next
    case (Some existing)
    obtain r s4 where a: "appendNotionToggles w summaries (parentBlockId existing) 2000 ?s3 = Some (r, s4)"
      using appendNotionToggles_returns[of 2000 w summaries "parentBlockId existing" ?s3] by auto
    then show ?thesis using appendNotionToggles_building[OF a] Some by (cases r) auto
  qed
  then obtain r s4 where wr: "?written = Some (r, s4)"
    and b: "building summaries 2000 (notionRequest ?target ?s3) s4" by blast
  show ?thesis
  proof (cases r)
    case (Inl e)
    have "exportSlice w d turnsToProcess startIndex s = Some (exportFailed e s4)"
      using sums wr Inl by (simp add: exportSlice_def Let_def)
    then show ?thesis using b exportFailed_state[of e s4]
      by (cases "exportFailed e s4") auto
  next
    case (Inr parent)
    define title where "title = (if exportMode d = js ''update'' then js ''Update Complete'' else js ''Export Complete'')"
    define body where "body = (if exportMode d = js ''update''
                         then js ''Successfully added '' @ numToString (length turnsToProcess) @
                              js '' new turns to Notion!''
                         else js ''Successfully exported '' @ numToString (length (turns d)) @
                              js '' turns to Notion!'')"
    define fin where "fin = emit (Notified title body)
             ((storeExportHistory (conversationUrl d)
                             \<lparr>recordUrl = conversationUrl d,
                              conversationTitle = chatTitle d,
                              exportedAt = toISOString w,
                              turnCount = length (turns d),
                              notionPageId = pageId d,
                              parentBlockId = parent\<rparr> s4)\<lparr>exportProgress := None\<rparr>)"
    have "exportSlice w d turnsToProcess startIndex s = Some (Inr (), fin)"
      using sums wr Inr unfolding fin_def title_def body_def
      by (simp add: exportSlice_def Let_def)
    moreover have "trace fin = trace s4 @ [Notified title body]"
      "exportProgress fin = None" "requests fin = requests s4" "notionRequests fin = notionRequests s4"
      "exportHistory fin = (exportHistory s4)(conversationUrl d \<mapsto>
                        \<lparr>recordUrl = conversationUrl d, conversationTitle = chatTitle d,
                         exportedAt = toISOString w, turnCount = length (turns d),
                         notionPageId = pageId d, parentBlockId = parent\<rparr>)"
      by (simp_all add: fin_def emit_def storeExportHistory_def)
    ultimately show ?thesis using b by auto
  qed
qed

lemma notionRequest_frame [simp]:
  "trace (notionRequest e s) = trace s @ [e]"
  "exportHistory (notionRequest e s) = exportHistory s"
  "exportProgress (notionRequest e s) = exportProgress s"
  "requests (notionRequest e s) = requests s"
  "notionRequests (notionRequest e s) = notionRequests s + 1"
  by (simp_all add: notionRequest_def emit_def)

lemma exportSlice_run:
  "\<exists>outcome s' evs counts summaries.
     exportSlice w d ts st s = Some (outcome, s') \<and> trace s' = trace s @ evs \<and>
     fst (summarizeTurns w ts 0 (length ts) st (length (turns d))
            (updateProgress (js ''starting'') 0 (length ts) (js ''Starting export...'') s)) = summaries \<and>
     length counts = length ts \<and> list_all (\<lambda>k. 1 \<le> k) counts \<and>
     requestedPrompts evs = promptsOf counts ts \<and>
     map summaryTurnNumber summaries = map turnNumber ts \<and>
     map sourceUser summaries = map user ts \<and>
     map sourceAssistant summaries = map assistant ts \<and>
     (\<forall>i<length ts. st + i + 1 \<in> set (summaryErrors evs) \<or>
          (\<forall>k model. \<not> isAnswered (anthropic w k model (prompt (ts ! i)))) \<longrightarrow>
        summaries ! i = failedSummary (ts ! i)) \<and>
     (\<exists>rest. notionPatches evs =
        (case updateFrom d of
           Some existing \<Rightarrow> (parentBlockId existing, map turnToggle summaries)
         | None \<Rightarrow> (pageId d, [masterToggle w summaries (chatTitle d) (conversationUrl d)])) # rest \<and>
        list_all (\<lambda>(blockId, blocks). \<exists>summary\<in>set summaries. sourceTextChildren summary 2000 = Some blocks) rest) \<and>
     notionRequests s < notionRequests s' \<and>
     (case outcome of
        Inl e \<Rightarrow> exportHistory s' = exportHistory s \<and>
                 exportProgress s' = Some \<lparr>status = js ''error'', current = 0, total = 0, message = e\<rparr>
      | Inr u \<Rightarrow> exportProgress s' = None \<and>
                 (\<exists>parent. exportHistory s' = (exportHistory s)(conversationUrl d \<mapsto>
                    \<lparr>recordUrl = conversationUrl d, conversationTitle = chatTitle d,
                     exportedAt = toISOString w, turnCount = length (turns d),
                     notionPageId = pageId d, parentBlockId = parent\<rparr>)))"
proof -
  let ?s1 = "updateProgress (js ''starting'') 0 (length ts) (js ''Starting export...'') s"
  obtain summaries s2 where sums: "summarizeTurns w ts 0 (length ts) st (length (turns d)) ?s1 = (summaries, s2)"
    by (cases "summarizeTurns w ts 0 (length ts) st (length (turns d)) ?s1")
  let ?s3 = "updateProgress (js ''creating'') (length ts) (length ts) (js ''Creating Notion blocks...'') s2"
  let ?patch = "case updateFrom d of
                   Some existing \<Rightarrow> NotionPatch (parentBlockId existing) (map turnToggle summaries)
                 | None \<Rightarrow> NotionPatch (pageId d) [masterToggle w summaries (chatTitle d) (conversationUrl d)]"
  let ?target = "case updateFrom d of
           Some existing \<Rightarrow> (parentBlockId existing, map turnToggle summaries)
         | None \<Rightarrow> (pageId d, [masterToggle w summaries (chatTitle d) (conversationUrl d)])"
  from summarizeTurns_trace[OF sums] obtain counts evs1 where
    e1: "trace s2 = trace s @ evs1" "length counts = length ts" "list_all (\<lambda>k. 1 \<le> k) counts"
      "requestedPrompts evs1 = promptsOf counts ts" "notionPatches evs1 = []"
      "exportHistory s2 = exportHistory s" "notionRequests s2 = notionRequests s"
      "\<forall>j<length ts. st + 0 + j + 1 \<in> set (summaryErrors evs1) \<longrightarrow> summaries ! j = failedSummary (ts ! j)"
    by auto
  from exportSlice_main[OF sums] obtain outcome s4 s' title body where
    m: "exportSlice w d ts st s = Some (outcome, s')"
      "building summaries 2000 (notionRequest ?patch ?s3) s4"
      "trace s' = trace s4 @ [Notified title body]"
      "notionRequests s' = notionRequests s4"
      "case outcome of
              Inl e \<Rightarrow> exportHistory s' = exportHistory s4 \<and>
                       exportProgress s' = Some \<lparr>status = js ''error'', current = 0, total = 0, message = e\<rparr>
            | Inr u \<Rightarrow> exportProgress s' = None \<and>
                       (\<exists>parent. exportHistory s' = (exportHistory s4)(conversationUrl d \<mapsto>
                          \<lparr>recordUrl = conversationUrl d, conversationTitle = chatTitle d,
                           exportedAt = toISOString w, turnCount = length (turns d),
                           notionPageId = pageId d, parentBlockId = parent\<rparr>))"
    by blast
  from m(2) obtain evs2 where
    e2: "trace s4 = trace (notionRequest ?patch ?s3) @ evs2" "requestedPrompts evs2 = []" "summaryErrors evs2 = []"
      "list_all (\<lambda>(blockId, blocks). \<exists>summary\<in>set summaries. sourceTextChildren summary 2000 = Some blocks)
          (notionPatches evs2)"
      "exportHistory s4 = exportHistory (notionRequest ?patch ?s3)"
      "notionRequests (notionRequest ?patch ?s3) \<le> notionRequests s4"
    unfolding building_def by blast
  have pp: "requestedPrompt ?patch = []" "summaryError ?patch = []" "notionPatch ?patch = [?target]"
    by (simp_all split: option.splits)
  let ?evs = "evs1 @ ?patch # evs2 @ [Notified title body]"
  have tr: "trace s' = trace s @ ?evs" using m(3) e2(1) e1(1) by simp
  have rp: "requestedPrompts ?evs = promptsOf counts ts" using e1(4) e2(2) pp by simp
  have se: "summaryErrors ?evs = summaryErrors evs1" using e2(3) pp by simp
  have np: "notionPatches ?evs = ?target # notionPatches evs2" using e1(5) pp by simp
  have hist: "exportHistory s4 = exportHistory s" using e2(5) e1(6) by simp
  have nr: "notionRequests s < notionRequests s'" using m(4) e2(6) e1(7) by simp
  have sent: "\<forall>i<length ts. st + i + 1 \<in> set (summaryErrors ?evs) \<or>
          (\<forall>k model. \<not> isAnswered (anthropic w k model (prompt (ts ! i)))) \<longrightarrow>
        summaries ! i = failedSummary (ts ! i)"
    using e1(8) summarizeTurns_sentinel[of _ ts w 0 "length ts" st "length (turns d)" ?s1] sums
    unfolding se by auto
  have fin: "case outcome of
        Inl e \<Rightarrow> exportHistory s' = exportHistory s \<and>
                 exportProgress s' = Some \<lparr>status = js ''error'', current = 0, total = 0, message = e\<rparr>
      | Inr u \<Rightarrow> exportProgress s' = None \<and>
                 (\<exists>parent. exportHistory s' = (exportHistory s)(conversationUrl d \<mapsto>
                    \<lparr>recordUrl = conversationUrl d, conversationTitle = chatTitle d,
                     exportedAt = toISOString w, turnCount = length (turns d),
                     notionPageId = pageId d, parentBlockId = parent\<rparr>))"
    using m(5) hist by (cases outcome) auto
  have pin: "fst (summarizeTurns w ts 0 (length ts) st (length (turns d)) ?s1) = summaries"
    using sums by simp
  show ?thesis
    apply (rule exI[of _ outcome], rule exI[of _ s'], rule exI[of _ ?evs], rule exI[of _ counts],
           rule exI[of _ summaries])
    using m(1) tr pin e1(2,3) rp summarizeTurns_fields[OF sums] sent np e2(4) nr fin
    by (intro conjI) (simp_all only: , blast+)
qed

lemma exportSlice_cong:
  assumes "length (turns d') = length (turns d)" "chatTitle d' = chatTitle d"
    "conversationUrl d' = conversationUrl d" "pageId d' = pageId d" "exportMode d' = exportMode d"
    "existingExportData d' = existingExportData d"
  shows "exportSlice w d' ts st s = exportSlice w d ts st s"
  unfolding exportSlice_def updateFrom_def assms ..

section \<open>The orchestration pipeline: claims\<close>

text \<open>
  Claim C5 (backoff: only rate-limit and 5xx-class failures are retried, a non-retryable
  failure propagates at once) fails on the code. \<open>retryWithBackoff\<close> does not see the
  status of the response: it classifies the failure by its message, as retryable when the
  message contains \<open>429\<close> or \<open>rate limit\<close>, or both \<open>5\<close> and \<open>Error\<close>. A
  response with status 500 and the message \<open>Internal server error\<close> is thrown by
  \<open>handleSummarization\<close> as \<open>API Error: Internal server error\<close>, which has no
  \<open>5\<close>: it is not retried (one attempt, five requests, no delay). A response with
  status 400 and the message \<open>max_tokens: 5 is too low\<close> is thrown as
  \<open>API Error: max_tokens: 5 is too low\<close>, which has both: it is retried twice, after
  delays of 1000 and 2000 ms (three attempts, fifteen requests).
\<close>

theorem retry_classifies_by_message:
  "\<not> shouldRetry (js ''API Error: Internal server error'') \<and>
   retryWithBackoff (rejecting (js ''API Error: Internal server error'')) 3 1000 idle
     = (Inl (Error (js ''API Error: Internal server error'')), idle) \<and>
   fst (handleSummarization serverErrorWorld turnA idle) = Inl (Error (js ''API Error: Internal server error'')) \<and>
   requests (snd (handleSummarization serverErrorWorld turnA idle)) = 5 \<and>
   sleeps (trace (snd (handleSummarization serverErrorWorld turnA idle))) = [] \<and>
   shouldRetry (js ''API Error: max_tokens: 5 is too low'') \<and>
   retryWithBackoff (rejecting (js ''API Error: max_tokens: 5 is too low'')) 3 1000 idle
     = (Inl (Error (js ''API Error: max_tokens: 5 is too low'')), idle\<lparr>trace := [Slept 1000, Slept 2000]\<rparr>) \<and>
   fst (handleSummarization badRequestWorld turnA idle) = Inl (Error (js ''API Error: max_tokens: 5 is too low'')) \<and>
   requests (snd (handleSummarization badRequestWorld turnA idle)) = 15 \<and>
   sleeps (trace (snd (handleSummarization badRequestWorld turnA idle))) = [1000, 2000]"
proof -
  have n: "\<not> shouldRetry (js ''API Error: Internal server error'')"
    by (simp add: shouldRetry_def js_def)
  have n': "\<not> shouldRetry (js ''API Error: '' @ js ''Internal server error'')"
    by (simp add: shouldRetry_def js_def)
  have r: "shouldRetry (js ''API Error: max_tokens: 5 is too low'')"
    by (simp add: shouldRetry_def js_def)
  have r': "shouldRetry (js ''API Error: '' @ js ''max_tokens: 5 is too low'')"
    by (simp add: shouldRetry_def js_def)
  have a: "js ''API Error: '' @ js ''Internal server error'' = js ''API Error: Internal server error''"
    "js ''API Error: '' @ js ''max_tokens: 5 is too low'' = js ''API Error: max_tokens: 5 is too low''"
    by (simp_all add: js_def)
  have 1: "retryWithBackoff (rejecting (js ''API Error: Internal server error'')) 3 1000 idle
     = (Inl (Error (js ''API Error: Internal server error'')), idle)"
    unfolding retry3_unfold using n by (simp add: rejecting_def)
  have 2: "retryWithBackoff (rejecting (js ''API Error: max_tokens: 5 is too low'')) 3 1000 idle
     = (Inl (Error (js ''API Error: max_tokens: 5 is too low'')), idle\<lparr>trace := [Slept 1000, Slept 2000]\<rparr>)"
    unfolding retry3_unfold using r by (simp add: rejecting_def sleep_def emit_def idle_def)
  have t: "tryModels serverErrorWorld turnA modelsToTry None s =
      (Inl (js ''API Error: '' @ js ''Internal server error''),
       s\<lparr>requests := requests s + 5,
         trace := trace s @ concat (map (\<lambda>model. [Requested model (prompt turnA),
                    ModelFailed model (js ''API Error: '' @ js ''Internal server error'')]) modelsToTry)\<rparr>)" for s
    by (simp add: modelsToTry_def serverErrorWorld_def silentWorld_def Let_def emit_def)
  have t': "tryModels badRequestWorld turnA modelsToTry None s =
      (Inl (js ''API Error: '' @ js ''max_tokens: 5 is too low''),
       s\<lparr>requests := requests s + 5,
         trace := trace s @ concat (map (\<lambda>model. [Requested model (prompt turnA),
                    ModelFailed model (js ''API Error: '' @ js ''max_tokens: 5 is too low'')]) modelsToTry)\<rparr>)" for s
    by (simp add: modelsToTry_def badRequestWorld_def silentWorld_def Let_def emit_def)
  have 3: "handleSummarization serverErrorWorld turnA idle = (Inl (Error (js ''API Error: Internal server error'')),
      idle\<lparr>requests := 5,
           trace := concat (map (\<lambda>model. [Requested model (prompt turnA),
                      ModelFailed model (js ''API Error: '' @ js ''Internal server error'')]) modelsToTry)\<rparr>)"
    unfolding handleSummarization_def retry3_unfold t using n' by (simp add: a idle_def)
  have 4: "fst (handleSummarization badRequestWorld turnA idle) = Inl (Error (js ''API Error: max_tokens: 5 is too low''))"
      "requests (snd (handleSummarization badRequestWorld turnA idle)) = 15"
      "sleeps (trace (snd (handleSummarization badRequestWorld turnA idle))) = [1000, 2000]"
    unfolding handleSummarization_def retry3_unfold t' using r'
    by (simp_all add: a idle_def sleep_def emit_def sleeps_def modelsToTry_def)
  show ?thesis using n r 1 2 3 4 by (simp add: sleeps_def modelsToTry_def)
qed

text \<open>
  Claim C6 (model fallback). When \<open>handleSummarization\<close> fails, the requests it made
  went through the whole list \<open>modelsToTry\<close>, in order, once per attempt (one to three
  attempts). When the first two candidates answer 404 and the third answers, the result
  is the summary parsed from the third answer, after three requests and exactly two
  skip events.
\<close>

theorem handleSummarization_fallback:
  "(handleSummarization w turnData s = (Inl e, s') \<longrightarrow>
      (\<exists>evs k. trace s' = trace s @ evs \<and> 1 \<le> k \<and> k \<le> 3 \<and>
         requestedModels evs = concat (replicate k modelsToTry))) \<and>
   (anthropic w (requests s) (js ''claude-3-5-sonnet-20241022'') (prompt turnData) = Unavailable \<and>
    anthropic w (requests s + 1) (js ''claude-3-5-sonnet-20240620'') (prompt turnData) = Unavailable \<and>
    anthropic w (requests s + 2) (js ''claude-3-opus-20240229'') (prompt turnData) = Answered content \<longrightarrow>
      handleSummarization w turnData s =
        (Inr \<lparr>summaryTurnNumber = turnNumber turnData,
              oneLine = fst (parseSummaries w content),
              paragraph = snd (parseSummaries w content),
              sourceUser = user turnData,
              sourceAssistant = assistant turnData\<rparr>,
         s\<lparr>requests := requests s + 3,
           trace := trace s @
             [Requested (js ''claude-3-5-sonnet-20241022'') (prompt turnData),
              Skipped (js ''claude-3-5-sonnet-20241022''),
              Requested (js ''claude-3-5-sonnet-20240620'') (prompt turnData),
              Skipped (js ''claude-3-5-sonnet-20240620''),
              Requested (js ''claude-3-opus-20240229'') (prompt turnData)]\<rparr>))"
proof (intro conjI impI)
  assume "handleSummarization w turnData s = (Inl e, s')"
  then show "\<exists>evs k. trace s' = trace s @ evs \<and> 1 \<le> k \<and> k \<le> 3 \<and>
         requestedModels evs = concat (replicate k modelsToTry)"
    by (rule handleSummarization_failed_trace)
next
  assume a: "anthropic w (requests s) (js ''claude-3-5-sonnet-20241022'') (prompt turnData) = Unavailable \<and>
    anthropic w (requests s + 1) (js ''claude-3-5-sonnet-20240620'') (prompt turnData) = Unavailable \<and>
    anthropic w (requests s + 2) (js ''claude-3-opus-20240229'') (prompt turnData) = Answered content"
  show "handleSummarization w turnData s =
        (Inr \<lparr>summaryTurnNumber = turnNumber turnData,
              oneLine = fst (parseSummaries w content),
              paragraph = snd (parseSummaries w content),
              sourceUser = user turnData,
              sourceAssistant = assistant turnData\<rparr>,
         s\<lparr>requests := requests s + 3,
           trace := trace s @
             [Requested (js ''claude-3-5-sonnet-20241022'') (prompt turnData),
              Skipped (js ''claude-3-5-sonnet-20241022''),
              Requested (js ''claude-3-5-sonnet-20240620'') (prompt turnData),
              Skipped (js ''claude-3-5-sonnet-20240620''),
              Requested (js ''claude-3-opus-20240229'') (prompt turnData)]\<rparr>)"
    using a unfolding handleSummarization_def retry3_unfold modelsToTry_split
    by (simp add: Let_def emit_def)
qed

theorem handleSummarization_fallback_witness:
  "(\<exists>e s' evs k. handleSummarization silentWorld turnA idle = (Inl e, s') \<and>
       trace s' = trace idle @ evs \<and> 1 \<le> k \<and> k \<le> 3 \<and>
       requestedModels evs = concat (replicate k modelsToTry)) \<and>
   handleSummarization thirdModelWorld turnA idle =
     (Inr \<lparr>summaryTurnNumber = 1, oneLine = js ''ok'', paragraph = js ''ok'',
           sourceUser = js ''hi'', sourceAssistant = js ''hello''\<rparr>,
      idle\<lparr>requests := 3,
           trace :=
             [Requested (js ''claude-3-5-sonnet-20241022'') (prompt turnA),
              Skipped (js ''claude-3-5-sonnet-20241022''),
              Requested (js ''claude-3-5-sonnet-20240620'') (prompt turnA),
              Skipped (js ''claude-3-5-sonnet-20240620''),
              Requested (js ''claude-3-opus-20240229'') (prompt turnA)]\<rparr>)"
proof -
  have n: "\<not> shouldRetry (js ''Model not found: '' @ js ''claude-3-haiku-20240307'')"
    by (simp add: shouldRetry_def js_def)
  have "\<exists>e s'. handleSummarization silentWorld turnA idle = (Inl e, s')"
    unfolding handleSummarization_def retry3_unfold modelsToTry_def
    using n by (simp add: silentWorld_def Let_def)
  then obtain e s' where f: "handleSummarization silentWorld turnA idle = (Inl e, s')" by blast
  have a: "anthropic thirdModelWorld (requests idle) (js ''claude-3-5-sonnet-20241022'') (prompt turnA) = Unavailable \<and>
    anthropic thirdModelWorld (requests idle + 1) (js ''claude-3-5-sonnet-20240620'') (prompt turnA) = Unavailable \<and>
    anthropic thirdModelWorld (requests idle + 2) (js ''claude-3-opus-20240229'') (prompt turnA) = Answered (js ''ok'')"
    by (simp add: thirdModelWorld_def silentWorld_def idle_def)
  show ?thesis
    using handleSummarization_fallback[where w = silentWorld and turnData = turnA and s = idle and e = e and s' = s']
      handleSummarization_fallback[where w = thirdModelWorld and turnData = turnA and s = idle and content = "js ''ok''"]
      f a
    apply (intro conjI)
     apply blast
    by (simp add: thirdModelWorld_def silentWorld_def idle_def turnA_def)
qed

text \<open>
  Claim C4 (sentinel substitution). Take a run of \<open>handleFullExport\<close> over the turns
  \<open>turnsToProcess\<close> (all turns, or in update mode the non-empty slice beyond the stored
  \<open>turnCount\<close>), and let \<open>summaries\<close> be what its summarization loop produces. The run
  always returns. There is one summary per turn of the slice, and each one carries the
  number, the user text and the assistant text of its turn. Wherever the run logged that
  summarizing the turn at position \<open>startIndex + i + 1\<close> failed, and wherever the API
  answers no request that carries the prompt of turn \<open>i\<close>, entry \<open>i\<close> is the
  placeholder: \<open>oneLine\<close> is \<open>Turn N (summary failed)\<close> with the turn's number, and
  the user and assistant text are the turn's own. The run goes on to the Document
  Builder with these summaries: its first write is the skeleton built from them, and every
  later write is the source text of one of them.
\<close>

theorem sentinel_substitution:
  assumes "turnsToProcess = (case updateFrom d of Some existing \<Rightarrow> drop (turnCount existing) (turns d) | None \<Rightarrow> turns d)"
    and "startIndex = (case updateFrom d of Some existing \<Rightarrow> turnCount existing | None \<Rightarrow> 0)"
    and "updateFrom d = None \<or> turnsToProcess \<noteq> []"
    and "summaries = fst (summarizeTurns w turnsToProcess 0 (length turnsToProcess) startIndex (length (turns d))
                            (updateProgress (js ''starting'') 0 (length turnsToProcess) (js ''Starting export...'') s))"
  shows "\<exists>outcome s' evs rest.
     handleFullExport w d s = Some (outcome, s') \<and> trace s' = trace s @ evs \<and>
     length summaries = length turnsToProcess \<and>
     map summaryTurnNumber summaries = map turnNumber turnsToProcess \<and>
     map sourceUser summaries = map user turnsToProcess \<and>
     map sourceAssistant summaries = map assistant turnsToProcess \<and>
     (\<forall>i<length turnsToProcess.
        startIndex + i + 1 \<in> set (summaryErrors evs) \<or>
        (\<forall>k model. \<not> isAnswered (anthropic w k model (prompt (turnsToProcess ! i)))) \<longrightarrow>
        summaries ! i =
          \<lparr>summaryTurnNumber = turnNumber (turnsToProcess ! i),
           oneLine = js ''Turn '' @ numToString (turnNumber (turnsToProcess ! i)) @ js '' (summary failed)'',
           paragraph = js ''Summary generation failed for this turn.'',
           sourceUser = user (turnsToProcess ! i),
           sourceAssistant = assistant (turnsToProcess ! i)\<rparr>) \<and>
     notionPatches evs =
       (case updateFrom d of
          Some existing \<Rightarrow> (parentBlockId existing, map turnToggle summaries)
        | None \<Rightarrow> (pageId d, [masterToggle w summaries (chatTitle d) (conversationUrl d)])) # rest \<and>
     list_all (\<lambda>(blockId, blocks). \<exists>summary\<in>set summaries. sourceTextChildren summary 2000 = Some blocks) rest"
proof -
  have run: "handleFullExport w d s = exportSlice w d turnsToProcess startIndex s"
    using assms(1-3) by (cases "updateFrom d") (auto simp: handleFullExport_def Let_def)
  from exportSlice_run[of w d turnsToProcess startIndex s] obtain outcome s' evs counts produced rest where
    r: "exportSlice w d turnsToProcess startIndex s = Some (outcome, s')" "trace s' = trace s @ evs"
       "fst (summarizeTurns w turnsToProcess 0 (length turnsToProcess) startIndex (length (turns d))
            (updateProgress (js ''starting'') 0 (length turnsToProcess) (js ''Starting export...'') s)) = produced"
       "map summaryTurnNumber produced = map turnNumber turnsToProcess"
       "map sourceUser produced = map user turnsToProcess"
       "map sourceAssistant produced = map assistant turnsToProcess"
       "\<forall>i<length turnsToProcess. startIndex + i + 1 \<in> set (summaryErrors evs) \<or>
          (\<forall>k model. \<not> isAnswered (anthropic w k model (prompt (turnsToProcess ! i)))) \<longrightarrow>
        produced ! i = failedSummary (turnsToProcess ! i)"
       "notionPatches evs =
        (case updateFrom d of
           Some existing \<Rightarrow> (parentBlockId existing, map turnToggle produced)
         | None \<Rightarrow> (pageId d, [masterToggle w produced (chatTitle d) (conversationUrl d)])) # rest"
       "list_all (\<lambda>(blockId, blocks). \<exists>summary\<in>set produced. sourceTextChildren summary 2000 = Some blocks) rest"
    by blast
  have same: "produced = summaries" using r(3) assms(4) by simp
  have "length (map sourceUser produced) = length (map user turnsToProcess)" using r(5) by simp
  then have len: "length summaries = length turnsToProcess" using same by simp
  show ?thesis
    apply (rule exI[of _ outcome], rule exI[of _ s'], rule exI[of _ evs], rule exI[of _ rest])
    using r(1,2,4-9) len run unfolding same by (simp add: failedSummary_def)
qed

theorem sentinel_substitution_witness:
  "[turnA] = (case updateFrom exportA of Some existing \<Rightarrow> drop (turnCount existing) (turns exportA)
              | None \<Rightarrow> turns exportA) \<and>
   (0 :: nat) = (case updateFrom exportA of Some existing \<Rightarrow> turnCount existing | None \<Rightarrow> 0) \<and>
   updateFrom exportA = None \<and>
   [\<lparr>summaryTurnNumber = 1, oneLine = js ''Turn 1 (summary failed)'',
      paragraph = js ''Summary generation failed for this turn.'',
      sourceUser = js ''hi'', sourceAssistant = js ''hello''\<rparr>]
     = fst (summarizeTurns silentWorld [turnA] 0 (length [turnA]) 0 (length (turns exportA))
              (updateProgress (js ''starting'') 0 (length [turnA]) (js ''Starting export...'') idle)) \<and>
   (\<exists>outcome s' evs rest.
      handleFullExport silentWorld exportA idle = Some (outcome, s') \<and> trace s' = trace idle @ evs \<and>
      notionPatches evs =
        (js ''page'',
         [masterToggle silentWorld
            [\<lparr>summaryTurnNumber = 1, oneLine = js ''Turn 1 (summary failed)'',
               paragraph = js ''Summary generation failed for this turn.'',
               sourceUser = js ''hi'', sourceAssistant = js ''hello''\<rparr>]
            (js ''Chat'') (js ''https://claude.ai/chat/1'')]) # rest)"
proof -
  let ?S = "fst (summarizeTurns silentWorld [turnA] 0 (length [turnA]) 0 (length (turns exportA))
              (updateProgress (js ''starting'') 0 (length [turnA]) (js ''Starting export...'') idle))"
  let ?f = "\<lparr>summaryTurnNumber = 1, oneLine = js ''Turn 1 (summary failed)'',
      paragraph = js ''Summary generation failed for this turn.'',
      sourceUser = js ''hi'', sourceAssistant = js ''hello''\<rparr>"
  have u: "updateFrom exportA = None" by (simp add: updateFrom_def exportA_def js_def)
  have t: "[turnA] = (case updateFrom exportA of Some existing \<Rightarrow> drop (turnCount existing) (turns exportA)
              | None \<Rightarrow> turns exportA)"
    "(0 :: nat) = (case updateFrom exportA of Some existing \<Rightarrow> turnCount existing | None \<Rightarrow> 0)"
    unfolding u by (simp_all add: exportA_def)
  have n: "js ''Turn '' @ numToString (turnNumber turnA) @ js '' (summary failed)'' = js ''Turn 1 (summary failed)''"
    by (simp add: turnA_def numToString.simps js_def)
  have a: "\<forall>k model. \<not> isAnswered (anthropic silentWorld k model (prompt turnA))"
    by (simp add: silentWorld_def)
  from sentinel_substitution[where turnsToProcess = "[turnA]" and d = exportA and startIndex = 0
      and summaries = ?S and w = silentWorld and s = idle, OF t(1) t(2) disjI1[OF u] refl]
  obtain outcome s' evs rest where
    r: "handleFullExport silentWorld exportA idle = Some (outcome, s')" "trace s' = trace idle @ evs"
       "length ?S = length [turnA]"
       "\<forall>i<length [turnA].
        0 + i + 1 \<in> set (summaryErrors evs) \<or>
        (\<forall>k model. \<not> isAnswered (anthropic silentWorld k model (prompt ([turnA] ! i)))) \<longrightarrow>
        ?S ! i =
          \<lparr>summaryTurnNumber = turnNumber ([turnA] ! i),
           oneLine = js ''Turn '' @ numToString (turnNumber ([turnA] ! i)) @ js '' (summary failed)'',
           paragraph = js ''Summary generation failed for this turn.'',
           sourceUser = user ([turnA] ! i),
           sourceAssistant = assistant ([turnA] ! i)\<rparr>"
       "notionPatches evs =
         (case updateFrom exportA of
            Some existing \<Rightarrow> (parentBlockId existing, map turnToggle ?S)
          | None \<Rightarrow> (pageId exportA, [masterToggle silentWorld ?S (chatTitle exportA) (conversationUrl exportA)])) # rest"
    by blast
  have "0 < length [turnA]" by simp
  then have "?S ! 0 =
          \<lparr>summaryTurnNumber = turnNumber ([turnA] ! 0),
           oneLine = js ''Turn '' @ numToString (turnNumber ([turnA] ! 0)) @ js '' (summary failed)'',
           paragraph = js ''Summary generation failed for this turn.'',
           sourceUser = user ([turnA] ! 0),
           sourceAssistant = assistant ([turnA] ! 0)\<rparr>"
    using r(4) a by (metis nth_Cons_0)
  then have z: "?S ! 0 = ?f" using n by (simp add: turnA_def)
  have l: "length ?S = Suc 0" using r(3) by (simp only: list.size One_nat_def add_0)
  have S: "?S = [?f]"
  proof (cases ?S)
    case Nil
    then show ?thesis using l by simp
  next
    case (Cons x xs)
    then show ?thesis using l z by simp
  qed
  have p: "notionPatches evs = (js ''page'', [masterToggle silentWorld [?f] (js ''Chat'') (js ''https://claude.ai/chat/1'')]) # rest"
    using r(5) unfolding S u by (simp add: exportA_def)
  show ?thesis
    apply (intro conjI)
        apply (rule t(1))
       apply (rule t(2))
      apply (rule u)
     apply (rule S[symmetric])
    apply (rule exI[of _ outcome], rule exI[of _ s'], rule exI[of _ evs], rule exI[of _ rest])
    using r(1,2) p by simp
qed

text \<open>
  Claim C7 (nothing to update). In update mode with a stored record whose \<open>turnCount\<close>
  is at least the number of turns, \<open>handleFullExport\<close> fails with
  \<open>No new turns to export\<close>. The final state differs from the initial one only in the
  progress snapshot (status \<open>error\<close> with that message) and in one notification: no
  request to the summarization API, no request to the destination document, no change
  of the export history.
\<close>

theorem update_without_new_turns:
  assumes "exportMode d = js ''update''" and "existingExportData d = Some existing"
    and "length (turns d) \<le> turnCount existing"
  shows "handleFullExport w d s =
           Some (Inl (js ''No new turns to export''),
                 s\<lparr>exportProgress := Some \<lparr>status = js ''error'', current = 0, total = 0,
                                            message = js ''No new turns to export''\<rparr>,
                   trace := trace s @ [Notified (js ''Export Failed'') (js ''No new turns to export'')]\<rparr>)"
  using assms by (simp add: handleFullExport_def updateFrom_def exportFailed_def emit_def updateProgress_def)

theorem update_without_new_turns_witness:
  "exportMode updateA = js ''update'' \<and> existingExportData updateA = Some storedA \<and>
   length (turns updateA) \<le> turnCount storedA \<and>
   handleFullExport silentWorld updateA idle =
     Some (Inl (js ''No new turns to export''),
           idle\<lparr>exportProgress := Some \<lparr>status = js ''error'', current = 0, total = 0,
                                         message = js ''No new turns to export''\<rparr>,
                trace := [Notified (js ''Export Failed'') (js ''No new turns to export'')]\<rparr>)"
  using update_without_new_turns[of updateA storedA silentWorld idle]
  by (simp add: updateA_def exportA_def storedA_def idle_def)

text \<open>
  Claim C3 (the export history is written last). \<open>handleFullExport\<close> always returns.
  When it fails, the export history is the one before the run, and the progress snapshot
  has status \<open>error\<close> and carries the message of the failure. When it succeeds, the
  progress snapshot is removed and the entry of the conversation is overwritten with the
  new record, whose \<open>turnCount\<close> is the number of turns. Calls to
  \<open>chrome.storage\<close> and \<open>chrome.notifications\<close> are taken to complete.
\<close>

theorem export_failure_keeps_history:
  "(\<exists>outcome s'. handleFullExport w d s = Some (outcome, s')) \<and>
   (handleFullExport w d s = Some (Inl e, s') \<longrightarrow>
      exportHistory s' = exportHistory s \<and>
      exportProgress s' = Some \<lparr>status = js ''error'', current = 0, total = 0, message = e\<rparr>) \<and>
   (handleFullExport w d s = Some (Inr u, s') \<longrightarrow>
      exportProgress s' = None \<and>
      (\<exists>parent. exportHistory s' = (exportHistory s)(conversationUrl d \<mapsto>
         \<lparr>recordUrl = conversationUrl d, conversationTitle = chatTitle d,
          exportedAt = toISOString w, turnCount = length (turns d),
          notionPageId = pageId d, parentBlockId = parent\<rparr>)))"
proof -
  have sl: "(\<exists>outcome s'. exportSlice w d ts st s = Some (outcome, s')) \<and>
   (exportSlice w d ts st s = Some (Inl e, s') \<longrightarrow>
      exportHistory s' = exportHistory s \<and>
      exportProgress s' = Some \<lparr>status = js ''error'', current = 0, total = 0, message = e\<rparr>) \<and>
   (exportSlice w d ts st s = Some (Inr u, s') \<longrightarrow>
      exportProgress s' = None \<and>
      (\<exists>parent. exportHistory s' = (exportHistory s)(conversationUrl d \<mapsto>
         \<lparr>recordUrl = conversationUrl d, conversationTitle = chatTitle d,
          exportedAt = toISOString w, turnCount = length (turns d),
          notionPageId = pageId d, parentBlockId = parent\<rparr>)))" for ts st
    using exportSlice_run[of w d ts st s] by (elim exE conjE) auto
  show ?thesis
  proof (cases "updateFrom d")
    case None
    then show ?thesis using sl[of "turns d" 0] by (simp add: handleFullExport_def Let_def)
  next
    case (Some existing)
    show ?thesis
    proof (cases "drop (turnCount existing) (turns d) = []")
      case True
      then have "handleFullExport w d s = Some (exportFailed (js ''No new turns to export'') s)"
        using Some by (simp add: handleFullExport_def Let_def)
      then show ?thesis by (auto simp: exportFailed_def emit_def updateProgress_def)
    next
      case False
      then show ?thesis using Some sl[of "drop (turnCount existing) (turns d)" "turnCount existing"]
        by (simp add: handleFullExport_def Let_def)
    qed
  qed
qed

theorem export_failure_keeps_history_witness:
  "(\<exists>s'. handleFullExport silentWorld exportA idle = Some (Inl (js ''Notion API Error: Bad Request''), s') \<and>
         exportHistory s' = exportHistory idle \<and>
         exportProgress s' = Some \<lparr>status = js ''error'', current = 0, total = 0,
                                    message = js ''Notion API Error: Bad Request''\<rparr>) \<and>
   (\<exists>s'. handleFullExport thirdModelWorld exportA idle = Some (Inr (), s') \<and>
         exportProgress s' = None \<and>
         exportHistory s' (js ''https://claude.ai/chat/1'') =
           Some \<lparr>recordUrl = js ''https://claude.ai/chat/1'', conversationTitle = js ''Chat'',
                 exportedAt = js ''2025-01-02T00:00:00.000Z'', turnCount = 1,
                 notionPageId = js ''page'', parentBlockId = js ''master''\<rparr>)"
proof -
  have "\<exists>s'. handleFullExport silentWorld exportA idle = Some (Inl (js ''Notion API Error: Bad Request''), s')"
    by (simp add: handleFullExport_def updateFrom_def exportA_def exportSlice_def Let_def
          createNotionToggles_def silentWorld_def messageOr_def exportFailed_def js_def split: prod.splits)
  then obtain s1 where f: "handleFullExport silentWorld exportA idle = Some (Inl (js ''Notion API Error: Bad Request''), s1)"
    by blast
  have "\<exists>s'. handleFullExport thirdModelWorld exportA idle =
              Some (Inr (), s') \<and>
              exportHistory s' (js ''https://claude.ai/chat/1'') =
                Some \<lparr>recordUrl = js ''https://claude.ai/chat/1'', conversationTitle = js ''Chat'',
                 exportedAt = js ''2025-01-02T00:00:00.000Z'', turnCount = 1,
                 notionPageId = js ''page'', parentBlockId = js ''master''\<rparr>"
    by (simp add: handleFullExport_def updateFrom_def exportA_def exportSlice_def Let_def
          createNotionToggles_def thirdModelWorld_def silentWorld_def notionRequest_def emit_def
          storeExportHistory_def js_def split: prod.splits)
  then obtain s2 where g: "handleFullExport thirdModelWorld exportA idle = Some (Inr (), s2)"
     "exportHistory s2 (js ''https://claude.ai/chat/1'') =
                Some \<lparr>recordUrl = js ''https://claude.ai/chat/1'', conversationTitle = js ''Chat'',
                 exportedAt = js ''2025-01-02T00:00:00.000Z'', turnCount = 1,
                 notionPageId = js ''page'', parentBlockId = js ''master''\<rparr>"
    by blast
  show ?thesis
    using export_failure_keeps_history[where w = silentWorld and d = exportA and s = idle
        and e = "js ''Notion API Error: Bad Request''" and s' = s1]
      export_failure_keeps_history[where w = thirdModelWorld and d = exportA and s = idle and s' = s2 and u = "()"]
      f g
    by auto
qed

text \<open>
  Claim C2 (delta computation). In update mode with a stored \<open>turnCount = k\<close> and
  \<open>n \<ge> k\<close> turns, the run returns; the prompts it sent to the summarization API are
  those of the turns at positions \<open>k+1 .. n\<close>, in order, each at least once; the
  \<open>n - k\<close> summaries carry the number and the texts of exactly these turns; every write
  to the destination document is either the skeleton of these summaries under the stored
  parent block or the chunked source text of one of them, and the skeleton write happens
  when \<open>k < n\<close>; and the run is the same whatever the first \<open>k\<close> turns are.
\<close>

theorem update_processes_only_new_turns:
  assumes "exportMode d = js ''update''" and "existingExportData d = Some existing"
    and "turnCount existing \<le> length (turns d)"
  shows "\<exists>outcome s' evs counts summaries.
     handleFullExport w d s = Some (outcome, s') \<and> trace s' = trace s @ evs \<and>
     length counts = length (turns d) - turnCount existing \<and> list_all (\<lambda>k. 1 \<le> k) counts \<and>
     requestedPrompts evs = promptsOf counts (drop (turnCount existing) (turns d)) \<and>
     length summaries = length (turns d) - turnCount existing \<and>
     map summaryTurnNumber summaries = map turnNumber (drop (turnCount existing) (turns d)) \<and>
     map sourceUser summaries = map user (drop (turnCount existing) (turns d)) \<and>
     map sourceAssistant summaries = map assistant (drop (turnCount existing) (turns d)) \<and>
     list_all (\<lambda>(blockId, blocks).
         (blockId = parentBlockId existing \<and> blocks = map turnToggle summaries) \<or>
         (\<exists>summary\<in>set summaries. sourceTextChildren summary 2000 = Some blocks))
       (notionPatches evs) \<and>
     (turnCount existing < length (turns d) \<longrightarrow>
        (parentBlockId existing, map turnToggle summaries) \<in> set (notionPatches evs)) \<and>
     (\<forall>old. length old = turnCount existing \<longrightarrow>
        handleFullExport w (d\<lparr>turns := old @ drop (turnCount existing) (turns d)\<rparr>) s =
        handleFullExport w d s)"
proof -
  let ?k = "turnCount existing"
  let ?new = "drop ?k (turns d)"
  have uf: "updateFrom d = Some existing" using assms by (simp add: updateFrom_def)
  have indep: "\<forall>old. length old = ?k \<longrightarrow>
        handleFullExport w (d\<lparr>turns := old @ ?new\<rparr>) s = handleFullExport w d s"
  proof (intro allI impI)
    fix old :: "turn list"
    assume old: "length old = ?k"
    have "exportSlice w (d\<lparr>turns := old @ ?new\<rparr>) ts st s = exportSlice w d ts st s" for ts st
      using old assms(3) by (intro exportSlice_cong) simp_all
    moreover have "updateFrom (d\<lparr>turns := old @ ?new\<rparr>) = updateFrom d" by (simp add: updateFrom_def)
    ultimately show "handleFullExport w (d\<lparr>turns := old @ ?new\<rparr>) s = handleFullExport w d s"
      using old uf by (simp add: handleFullExport_def Let_def)
  qed
  show ?thesis
  proof (cases "?new = []")
    case True
    then have eq: "?k = length (turns d)" using assms(3) by simp
    have "handleFullExport w d s = Some (exportFailed (js ''No new turns to export'') s)"
      using uf True by (simp add: handleFullExport_def Let_def)
    then have h: "handleFullExport w d s = Some (Inl (js ''No new turns to export''),
        emit (Notified (js ''Export Failed'') (js ''No new turns to export''))
          (updateProgress (js ''error'') 0 0 (js ''No new turns to export'') s))"
      by (simp add: exportFailed_def)
    show ?thesis
      apply (rule exI[of _ "Inl (js ''No new turns to export'')"])
      apply (rule exI[of _ "emit (Notified (js ''Export Failed'') (js ''No new turns to export''))
          (updateProgress (js ''error'') 0 0 (js ''No new turns to export'') s)"])
      apply (rule exI[of _ "[Notified (js ''Export Failed'') (js ''No new turns to export'')]"])
      apply (rule exI[of _ "[]"], rule exI[of _ "[]"])
      using h True eq indep by (simp add: promptsOf_def)
  next
    case False
    then have lt: "?k < length (turns d)" by simp
    have run: "handleFullExport w d s = exportSlice w d ?new ?k s"
      using uf False by (simp add: handleFullExport_def Let_def)
    from exportSlice_run[of w d ?new ?k s] obtain outcome s' evs counts summaries rest where
      r: "exportSlice w d ?new ?k s = Some (outcome, s')" "trace s' = trace s @ evs"
        "length counts = length ?new" "list_all (\<lambda>k. 1 \<le> k) counts"
        "requestedPrompts evs = promptsOf counts ?new"
        "map summaryTurnNumber summaries = map turnNumber ?new"
        "map sourceUser summaries = map user ?new"
        "map sourceAssistant summaries = map assistant ?new"
        "notionPatches evs = (parentBlockId existing, map turnToggle summaries) # rest"
        "list_all (\<lambda>(blockId, blocks). \<exists>summary\<in>set summaries. sourceTextChildren summary 2000 = Some blocks) rest"
      unfolding uf by auto
    have "length (map sourceUser summaries) = length (map user ?new)" using r(7) by simp
    then have len: "length summaries = length (turns d) - ?k" by simp
    have all: "list_all (\<lambda>(blockId, blocks).
         (blockId = parentBlockId existing \<and> blocks = map turnToggle summaries) \<or>
         (\<exists>summary\<in>set summaries. sourceTextChildren summary 2000 = Some blocks))
       (notionPatches evs)"
      using r(10) unfolding r(9) list_all_iff by auto
    show ?thesis
      apply (rule exI[of _ outcome], rule exI[of _ s'], rule exI[of _ evs], rule exI[of _ counts],
             rule exI[of _ summaries])
      using r(1-9) len all run indep by simp
  qed
qed

theorem update_processes_only_new_turns_witness:
  "exportMode updateAB = js ''update'' \<and> existingExportData updateAB = Some storedA \<and>
   turnCount storedA \<le> length (turns updateAB) \<and>
   (\<exists>outcome s' evs counts summaries.
      handleFullExport silentWorld updateAB idle = Some (outcome, s') \<and> trace s' = trace idle @ evs \<and>
      length counts = 1 \<and> list_all (\<lambda>k. 1 \<le> k) counts \<and>
      requestedPrompts evs = promptsOf counts [turnB] \<and>
      length summaries = 1 \<and>
      map summaryTurnNumber summaries = [2] \<and>
      map sourceUser summaries = [js ''more''] \<and>
      map sourceAssistant summaries = [js ''sure''] \<and>
      (js ''master'', map turnToggle summaries) \<in> set (notionPatches evs))"
proof -
  have h: "exportMode updateAB = js ''update''" "existingExportData updateAB = Some storedA"
    "turnCount storedA \<le> length (turns updateAB)"
    by (simp_all add: updateAB_def updateA_def exportA_def storedA_def)
  have d: "drop (turnCount storedA) (turns updateAB) = [turnB]" "length (turns updateAB) - turnCount storedA = 1"
    "turnCount storedA < length (turns updateAB)" "parentBlockId storedA = js ''master''"
    by (simp_all add: updateAB_def updateA_def exportA_def storedA_def)
  from update_processes_only_new_turns[OF h, of silentWorld idle]
  obtain outcome s' evs counts summaries where
    r: "handleFullExport silentWorld updateAB idle = Some (outcome, s')" "trace s' = trace idle @ evs"
      "length counts = 1" "list_all (\<lambda>k. 1 \<le> k) counts"
      "requestedPrompts evs = promptsOf counts [turnB]" "length summaries = 1"
      "map summaryTurnNumber summaries = map turnNumber [turnB]"
      "map sourceUser summaries = map user [turnB]"
      "map sourceAssistant summaries = map assistant [turnB]"
      "(js ''master'', map turnToggle summaries) \<in> set (notionPatches evs)"
    unfolding d using d(3) by blast
  have m: "map summaryTurnNumber summaries = [2]" "map sourceUser summaries = [js ''more'']"
    "map sourceAssistant summaries = [js ''sure'']"
    using r(7,8,9) by (simp_all add: turnB_def)
  show ?thesis
    apply (intro conjI h)
    apply (rule exI[of _ outcome], rule exI[of _ s'], rule exI[of _ evs], rule exI[of _ counts],
           rule exI[of _ summaries])
    using m r(1-6,10) by simp
qed

end
